theory Spec2Isabelle
  imports Main "HOL-Library.List_Lexorder"
begin

section \<open>Python 2 byte strings\<close>

text \<open>
  The program is Python 2: a \<open>str\<close> is a sequence of bytes, modelled as \<^typ>\<open>string\<close>.
  The string methods the program calls are written out below with the behaviour of
  Python 2.7 on \<open>str\<close>.
\<close>

definition isspace :: "char \<Rightarrow> bool" where
  \<comment> \<open>the bytes \<open>str.strip()\<close> and \<open>str.split()\<close> treat as whitespace\<close>
  "isspace c = (c = CHR '' '' \<or> c = CHR 0x09 \<or> c = CHR 0x0A \<or> c = CHR 0x0B
                \<or> c = CHR 0x0C \<or> c = CHR 0x0D)"

definition lstrip_of :: "(char \<Rightarrow> bool) \<Rightarrow> string \<Rightarrow> string" where
  "lstrip_of P s = dropWhile P s"

definition rstrip_of :: "(char \<Rightarrow> bool) \<Rightarrow> string \<Rightarrow> string" where
  "rstrip_of P s = rev (dropWhile P (rev s))"

definition strip_of :: "(char \<Rightarrow> bool) \<Rightarrow> string \<Rightarrow> string" where
  "strip_of P s = rstrip_of P (lstrip_of P s)"

definition strip :: "string \<Rightarrow> string" where
  \<comment> \<open>\<open>s.strip()\<close>\<close>
  "strip s = strip_of isspace s"

definition rstrip :: "string \<Rightarrow> string" where
  \<comment> \<open>\<open>s.rstrip()\<close>\<close>
  "rstrip s = rstrip_of isspace s"

definition strip_chars :: "string \<Rightarrow> string \<Rightarrow> string" where
  \<comment> \<open>\<open>s.strip(chars)\<close>\<close>
  "strip_chars chars s = strip_of (\<lambda>c. c \<in> set chars) s"

definition rstrip_chars :: "string \<Rightarrow> string \<Rightarrow> string" where
  \<comment> \<open>\<open>s.rstrip(chars)\<close>\<close>
  "rstrip_chars chars s = rstrip_of (\<lambda>c. c \<in> set chars) s"

definition startswith :: "string \<Rightarrow> string \<Rightarrow> bool" where
  \<comment> \<open>\<open>s.startswith(p)\<close>\<close>
  "startswith s p = (take (length p) s = p)"

definition endswith :: "string \<Rightarrow> string \<Rightarrow> bool" where
  "endswith s p = startswith (rev s) (rev p)"

fun contains :: "string \<Rightarrow> string \<Rightarrow> bool" where
  \<comment> \<open>\<open>p in s\<close> on strings: \<open>p\<close> occurs in \<open>s\<close>\<close>
  "contains [] p = (p = [])"
| "contains (c # cs) p = (startswith (c # cs) p \<or> contains cs p)"

fun split_sep :: "char \<Rightarrow> string \<Rightarrow> string list" where
  \<comment> \<open>\<open>s.split(c)\<close> for a separator of one character\<close>
  "split_sep c [] = [[]]"
| "split_sep c (x # xs) =
     (if x = c then [] # split_sep c xs
      else (case split_sep c xs of
              [] \<Rightarrow> [[x]]
            | y # ys \<Rightarrow> (x # y) # ys))"

definition split_sep1 :: "char \<Rightarrow> string \<Rightarrow> string list" where
  \<comment> \<open>\<open>s.split(c, 1)\<close>: at most one split, at the first separator\<close>
  "split_sep1 c s =
     (if c \<in> set s then [takeWhile (\<lambda>x. x \<noteq> c) s, tl (dropWhile (\<lambda>x. x \<noteq> c) s)]
      else [s])"

fun split_ws_from :: "string \<Rightarrow> string \<Rightarrow> string list" where
  "split_ws_from cur [] = (if cur = [] then [] else [cur])"
| "split_ws_from cur (c # cs) =
     (if isspace c then (if cur = [] then split_ws_from [] cs else cur # split_ws_from [] cs)
      else split_ws_from (cur @ [c]) cs)"

definition split_ws :: "string \<Rightarrow> string list" where
  \<comment> \<open>\<open>s.split()\<close>: the maximal runs of non-whitespace\<close>
  "split_ws s = split_ws_from [] s"

definition split_ws1 :: "string \<Rightarrow> string list" where
  \<comment> \<open>\<open>s.split(None, 1)\<close>: the first word, and what follows the whitespace after it\<close>
  "split_ws1 s =
     (let s1 = dropWhile isspace s in
      if s1 = [] then []
      else (let tok = takeWhile (\<lambda>c. \<not> isspace c) s1;
                rest = dropWhile isspace (dropWhile (\<lambda>c. \<not> isspace c) s1)
            in if rest = [] then [tok] else [tok, rest]))"

fun splitlines_from :: "string \<Rightarrow> string \<Rightarrow> string list" where
  "splitlines_from cur [] = (if cur = [] then [] else [cur])"
| "splitlines_from cur (c # cs) =
     (if c = CHR 0x0A then cur # splitlines_from [] cs
      else if c = CHR 0x0D then
        (case cs of
           [] \<Rightarrow> [cur]
         | d # ds \<Rightarrow> if d = CHR 0x0A then cur # splitlines_from [] ds
                     else cur # splitlines_from [] cs)
      else splitlines_from (cur @ [c]) cs)"

definition splitlines :: "string \<Rightarrow> string list" where
  \<comment> \<open>\<open>s.splitlines()\<close>: lines end at \<open>\n\<close>, \<open>\r\<close> or \<open>\r\n\<close>\<close>
  "splitlines s = splitlines_from [] s"

fun join :: "string \<Rightarrow> string list \<Rightarrow> string" where
  \<comment> \<open>\<open>sep.join(xs)\<close>\<close>
  "join sep [] = []"
| "join sep [x] = x"
| "join sep (x # y # ys) = x @ sep @ join sep (y # ys)"

subsection \<open>Numbers as text\<close>

definition digit_char :: "nat \<Rightarrow> char" where
  "digit_char n = char_of (48 + n)"

fun str_nat :: "nat \<Rightarrow> string" where
  "str_nat n = (if n < 10 then [digit_char n] else str_nat (n div 10) @ [digit_char (n mod 10)])"

declare str_nat.simps [simp del]

definition str_int :: "int \<Rightarrow> string" where
  \<comment> \<open>\<open>str(i)\<close> and \<open>'%i' % i\<close>\<close>
  "str_int i = (if i < 0 then CHR ''-'' # str_nat (nat (- i)) else str_nat (nat i))"

definition isdigit :: "char \<Rightarrow> bool" where
  \<comment> \<open>the regular expression class \<open>\d\<close> on a byte string\<close>
  "isdigit c = (48 \<le> (of_char c :: nat) \<and> (of_char c :: nat) \<le> 57)"

definition int_of_digits :: "string \<Rightarrow> int" where
  \<comment> \<open>\<open>int(s)\<close> for a string of decimal digits\<close>
  "int_of_digits s = foldl (\<lambda>a c. 10 * a + (int (of_char c) - 48)) 0 s"

subsection \<open>\<open>repr\<close> of a string and of a tuple of strings\<close>

definition hexdigit :: "nat \<Rightarrow> char" where
  "hexdigit n = (if n < 10 then char_of (48 + n) else char_of (87 + n))"

definition repr_char :: "char \<Rightarrow> char \<Rightarrow> string" where
  "repr_char q c =
     (if c = q \<or> c = CHR 0x5C then [CHR 0x5C, c]
      else if c = CHR 0x09 then [CHR 0x5C, CHR ''t'']
      else if c = CHR 0x0A then [CHR 0x5C, CHR ''n'']
      else if c = CHR 0x0D then [CHR 0x5C, CHR ''r'']
      else if (of_char c :: nat) < 32 \<or> 127 \<le> (of_char c :: nat) then
        [CHR 0x5C, CHR ''x'', hexdigit ((of_char c :: nat) div 16), hexdigit ((of_char c :: nat) mod 16)]
      else [c])"

definition repr_str :: "string \<Rightarrow> string" where
  \<comment> \<open>\<open>repr(s)\<close>: single quotes, unless the string holds a single and no double quote\<close>
  "repr_str s =
     (let q = (if CHR 0x27 \<in> set s \<and> CHR 0x22 \<notin> set s then CHR 0x22 else CHR 0x27)
      in [q] @ concat (map (repr_char q) s) @ [q])"

definition repr_tuple :: "string list \<Rightarrow> string" where
  \<comment> \<open>\<open>repr(t)\<close> of a tuple of strings\<close>
  "repr_tuple xs =
     (case xs of
        [x] \<Rightarrow> ''('' @ repr_str x @ '',)''
      | _ \<Rightarrow> ''('' @ join '', '' (map repr_str xs) @ '')'')"

section \<open>Errors, the environment and the state\<close>

text \<open>
  Every exception the program raises, or lets a library call raise, is a value.
  \<open>ExternalCommandFailed\<close> carries the message passed to its constructor and the
  \<open>command\<close> attribute it stores.
\<close>

datatype error =
    ExternalCommandFailed string "string list"
  | Exception string
  | KeyError string
  | ValueError string
  | AttributeError string
  | UnicodeDecodeError string
  | IOError string
  | OSError string
  | SystemExit int

fun command :: "error \<Rightarrow> string list" where
  "command (ExternalCommandFailed msg cmd) = cmd"
| "command _ = []"

fun message :: "error \<Rightarrow> string" where
  "message (ExternalCommandFailed msg cmd) = msg"
| "message (Exception msg) = msg"
| "message (KeyError msg) = msg"
| "message (ValueError msg) = msg"
| "message (AttributeError msg) = msg"
| "message (UnicodeDecodeError msg) = msg"
| "message (IOError msg) = msg"
| "message (OSError msg) = msg"
| "message (SystemExit n) = str_int n"

text \<open>
  What \<open>subprocess.Popen(args, **context)\<close> followed by \<open>communicate\<close> observes of a
  child: it could not be started, or it exited with a return code having written some
  bytes to its standard output.
\<close>

datatype proc = SpawnFailed string | Exited int string

text \<open>An HTTP response as \<open>urllib.urlopen\<close> gives it: the status code and the body.\<close>

datatype response = Response int string

text \<open>The external calls the program issues, in the order it issues them.\<close>

datatype call =
    Popen "string list" string "string option" bool
    \<comment> \<open>argument vector, working directory, piped input, whether stdout is captured\<close>
  | UrlOpen string
  | NetrcRead string
  | MechOpen string
  | MechSubmit string "(string \<times> string) list" "(string \<times> string) option"
    \<comment> \<open>form name, the fields set, the file added (name and contents)\<close>
  | WebbrowserOpen string

datatype level = NOTSET | DEBUG | VERBOSE | INFO | WARNING | ERROR | CRITICAL

datatype logarg = S string | I int | L "int list"

text \<open>
  A logging call: the level, and either a format string with its arguments (the logger
  formats lazily) or the exception handed to \<open>logger.exception\<close>.
\<close>

datatype logmsg = Fmt string "logarg list" | Exc error

type_synonym filesystem = "string \<Rightarrow> string option"

record 'w state =
  files :: filesystem
  world :: 'w
  calls :: "call list"
  logged :: "(level \<times> logmsg) list"

text \<open>
  The collaborators outside the program: child processes (git, the editor, the
  post-release hook), the registry's web pages, the \<open>mechanize\<close> session, the
  \<open>netrc\<close> file and the path functions of \<open>os.path\<close>. A child process may change the
  file system and the rest of the world \<open>'w\<close>.
\<close>

record 'w env =
  popen :: "string list \<Rightarrow> string \<Rightarrow> string option \<Rightarrow> bool \<Rightarrow> filesystem \<times> 'w \<Rightarrow> proc \<times> filesystem \<times> 'w"
  urlopen :: "string \<Rightarrow> 'w \<Rightarrow> response option"
  netrc :: "string \<Rightarrow> 'w \<Rightarrow> (string \<times> string \<times> string \<times> string) list option"
  mech_open :: "string \<Rightarrow> 'w \<Rightarrow> string option \<times> 'w"
  mech_submit :: "string \<Rightarrow> (string \<times> string) list \<Rightarrow> (string \<times> string) option \<Rightarrow> 'w \<Rightarrow> string option \<times> 'w"
  abspath :: "string \<Rightarrow> string"
  realpath :: "string \<Rightarrow> string"
  relpath :: "string \<Rightarrow> string \<Rightarrow> string"
  expanduser :: "string \<Rightarrow> string"
  basename :: "string \<Rightarrow> string"

type_synonym ('a, 'w) prog = "'w state \<Rightarrow> (error + 'a) \<times> 'w state"

definition ret :: "'a \<Rightarrow> ('a, 'w) prog" where
  "ret x s = (Inr x, s)"

definition raise :: "error \<Rightarrow> ('a, 'w) prog" where
  "raise e s = (Inl e, s)"

definition bnd :: "('a, 'w) prog \<Rightarrow> ('a \<Rightarrow> ('b, 'w) prog) \<Rightarrow> ('b, 'w) prog" where
  \<comment> \<open>sequencing: an exception of the first statement skips the rest\<close>
  "bnd m f s = (case m s of (Inl e, s') \<Rightarrow> (Inl e, s') | (Inr x, s') \<Rightarrow> f x s')"

definition logger :: "level \<Rightarrow> string \<Rightarrow> logarg list \<Rightarrow> (unit, 'w) prog" where
  "logger lvl fmt args s = (Inr (), s\<lparr>logged := logged s @ [(lvl, Fmt fmt args)]\<rparr>)"

definition logger_exception :: "error \<Rightarrow> (unit, 'w) prog" where
  \<comment> \<open>\<open>logger.exception(e)\<close>: the exception, at level ERROR\<close>
  "logger_exception e s = (Inr (), s\<lparr>logged := logged s @ [(ERROR, Exc e)]\<rparr>)"

section \<open>The command runner\<close>

record kwargs =
  kw_cwd :: "string option"
  kw_input :: "string option"
  kw_capture :: bool
  kw_check :: bool

definition kw0 :: kwargs where
  \<comment> \<open>no keyword given: \<open>cwd\<close> and \<open>input\<close> absent, \<open>capture\<close> False, \<open>check\<close> True\<close>
  "kw0 = \<lparr>kw_cwd = None, kw_input = None, kw_capture = False, kw_check = True\<rparr>"

definition context_cwd :: "'w env \<Rightarrow> kwargs \<Rightarrow> string" where
  \<comment> \<open>\<open>os.path.abspath(kw.get('cwd', '.'))\<close>\<close>
  "context_cwd env kw = abspath env (case kw_cwd kw of None \<Rightarrow> ''.'' | Some d \<Rightarrow> d)"

definition run :: "'w env \<Rightarrow> string list \<Rightarrow> kwargs \<Rightarrow> (string option, 'w) prog" where
  "run env args kw s =
     (let cwd = context_cwd env kw;
          (p, fs', w') = popen env args cwd (kw_input kw) (kw_capture kw) (files s, world s);
          s' = s\<lparr>files := fs', world := w',
                 calls := calls s @ [Popen args cwd (kw_input kw) (kw_capture kw)]\<rparr>
      in case p of
           SpawnFailed m \<Rightarrow> (Inl (OSError m), s')
         | Exited returncode out \<Rightarrow>
             if kw_check kw \<and> returncode \<noteq> 0 then
               (Inl (ExternalCommandFailed
                      (''External command '' @ repr_tuple args @ '' exited with code ''
                        @ str_int returncode @ '' (working directory: '' @ cwd @ '')'')
                      args), s')
             else (Inr (if kw_capture kw then Some (strip out) else None), s'))"

subsection \<open>Files\<close>

definition write_file :: "string \<Rightarrow> string \<Rightarrow> (unit, 'w) prog" where
  \<comment> \<open>\<open>with open(fname, 'w') as handle: handle.write(data)\<close>\<close>
  "write_file fname data s = (Inr (), s\<lparr>files := (files s)(fname \<mapsto> data)\<rparr>)"

definition read_file :: "string \<Rightarrow> (string, 'w) prog" where
  \<comment> \<open>\<open>with open(fname) as handle: handle.read()\<close>; a missing file raises\<close>
  "read_file fname s =
     (case files s fname of
        None \<Rightarrow> (Inl (IOError fname), s)
      | Some data \<Rightarrow> (Inr data, s))"

definition unlink :: "string \<Rightarrow> (unit, 'w) prog" where
  \<comment> \<open>\<open>os.unlink(fname)\<close>; a missing file raises\<close>
  "unlink fname s =
     (case files s fname of
        None \<Rightarrow> (Inl (OSError fname), s)
      | Some data \<Rightarrow> (Inr (), s\<lparr>files := (files s)(fname := None)\<rparr>))"

subsection \<open>From CP-1252 to UTF-8\<close>

definition cp1252_table :: "(nat \<times> nat) list" where
  \<comment> \<open>the code points of the bytes 0x80 to 0x9F; five bytes have none\<close>
  "cp1252_table =
     [(0x80, 0x20AC), (0x82, 0x201A), (0x83, 0x0192), (0x84, 0x201E), (0x85, 0x2026),
      (0x86, 0x2020), (0x87, 0x2021), (0x88, 0x02C6), (0x89, 0x2030), (0x8A, 0x0160),
      (0x8B, 0x2039), (0x8C, 0x0152), (0x8E, 0x017D), (0x91, 0x2018), (0x92, 0x2019),
      (0x93, 0x201C), (0x94, 0x201D), (0x95, 0x2022), (0x96, 0x2013), (0x97, 0x2014),
      (0x98, 0x02DC), (0x99, 0x2122), (0x9A, 0x0161), (0x9B, 0x203A), (0x9C, 0x0153),
      (0x9E, 0x017E), (0x9F, 0x0178)]"

definition decode_cp1252 :: "char \<Rightarrow> nat option" where
  "decode_cp1252 c =
     (let n = (of_char c :: nat) in
      if n < 0x80 \<or> 0xA0 \<le> n then Some n else map_of cp1252_table n)"

definition encode_utf8 :: "nat \<Rightarrow> string" where
  "encode_utf8 n =
     (if n < 0x80 then [char_of n]
      else if n < 0x800 then [char_of (0xC0 + n div 64), char_of (0x80 + n mod 64)]
      else [char_of (0xE0 + n div 4096), char_of (0x80 + (n div 64) mod 64),
            char_of (0x80 + n mod 64)])"

fun cp1252_to_utf8 :: "string \<Rightarrow> error + string" where
  \<comment> \<open>\<open>text.decode('windows-1252').encode('utf-8')\<close>\<close>
  "cp1252_to_utf8 [] = Inr []"
| "cp1252_to_utf8 (c # cs) =
     (case decode_cp1252 c of
        None \<Rightarrow> Inl (UnicodeDecodeError [c])
      | Some n \<Rightarrow> (case cp1252_to_utf8 cs of
                     Inl e \<Rightarrow> Inl e
                   | Inr u \<Rightarrow> Inr (encode_utf8 n @ u)))"

fun log_lines :: "string list \<Rightarrow> (unit, 'w) prog" where
  \<comment> \<open>\<open>for line in lines: self.logger.debug("%s", cp1252_to_utf8(line))\<close>\<close>
  "log_lines [] = ret ()"
| "log_lines (line # lines) =
     (case cp1252_to_utf8 line of
        Inl e \<Rightarrow> raise e
      | Inr u \<Rightarrow> bnd (logger DEBUG ''%s'' [S u]) (\<lambda>_. log_lines lines))"

section \<open>The plug-in manager\<close>

text \<open>
  \<open>self.plugins\<close> maps a plug-in name to the dictionary of its configuration items. Both
  are association lists; the order of the outer list is the order in which
  \<open>self.plugins.iteritems()\<close> yields its entries.
\<close>

record manager =
  plugins :: "(string \<times> (string \<times> string) list) list"
  dry_run :: bool

definition plugin_info :: "manager \<Rightarrow> string \<Rightarrow> ((string \<times> string) list, 'w) prog" where
  \<comment> \<open>\<open>self.plugins[plugin_name]\<close>\<close>
  "plugin_info self plugin_name =
     (case map_of (plugins self) plugin_name of
        None \<Rightarrow> raise (KeyError plugin_name)
      | Some info \<Rightarrow> ret info)"

definition item :: "(string \<times> string) list \<Rightarrow> string \<Rightarrow> (string, 'w) prog" where
  \<comment> \<open>\<open>info[key]\<close>\<close>
  "item info key =
     (case map_of info key of
        None \<Rightarrow> raise (KeyError key)
      | Some v \<Rightarrow> ret v)"

definition plugin_item :: "manager \<Rightarrow> string \<Rightarrow> string \<Rightarrow> (string, 'w) prog" where
  \<comment> \<open>\<open>self.plugins[plugin_name][key]\<close>\<close>
  "plugin_item self plugin_name key = bnd (plugin_info self plugin_name) (\<lambda>info. item info key)"

definition captured :: "string option \<Rightarrow> (string, 'w) prog" where
  \<comment> \<open>a string method called on what \<open>run\<close> returned: \<open>None\<close> has no such attribute\<close>
  "captured out =
     (case out of
        None \<Rightarrow> raise (AttributeError ''NoneType'')
      | Some text \<Rightarrow> ret text)"

subsection \<open>Miscellaneous methods\<close>

fun find_matching_plugin ::
  "'w env \<Rightarrow> string \<Rightarrow> (string \<times> (string \<times> string) list) list \<Rightarrow> (string, 'w) prog" where
  \<comment> \<open>the loop of \<open>find_current_plugin\<close> over \<open>self.plugins.iteritems()\<close>\<close>
  "find_matching_plugin env current_directory [] =
     raise (Exception (''The directory '' @ repr_str current_directory
                        @ '' doesn't contain a known Vim plug-in!''))"
| "find_matching_plugin env current_directory ((plugin_name, info) # rest) =
     bnd (item info ''directory'') (\<lambda>d.
       let directory = realpath env d in
       if startswith current_directory directory then
         bnd (logger INFO ''Current plug-in is %r.'' [S plugin_name]) (\<lambda>_. ret plugin_name)
       else find_matching_plugin env current_directory rest)"

definition find_current_plugin :: "'w env \<Rightarrow> manager \<Rightarrow> (string, 'w) prog" where
  "find_current_plugin env self =
     bnd (logger DEBUG ''Finding current plug-in based on current working directory ..'' []) (\<lambda>_.
       let current_directory = realpath env ''.'' in
       find_matching_plugin env current_directory (plugins self))"

definition current_branch :: "'w env \<Rightarrow> manager \<Rightarrow> string \<Rightarrow> (string, 'w) prog" where
  "current_branch env self plugin_name =
     bnd (plugin_item self plugin_name ''directory'') (\<lambda>directory.
     bnd (run env [''git'', ''symbolic-ref'', ''HEAD'']
            (kw0\<lparr>kw_cwd := Some directory, kw_capture := True\<rparr>)) (\<lambda>out.
     bnd (captured out) (\<lambda>output.
       let tokens = split_sep CHR ''/'' output;
           branch_name = last tokens
       in bnd (logger VERBOSE ''Current branch: %s'' [S branch_name]) (\<lambda>_. ret branch_name))))"

definition find_releases :: "'w env \<Rightarrow> manager \<Rightarrow> string \<Rightarrow> (string list, 'w) prog" where
  "find_releases env self plugin_name =
     bnd (plugin_item self plugin_name ''directory'') (\<lambda>directory.
     bnd (run env [''git'', ''tag''] (kw0\<lparr>kw_cwd := Some directory, kw_capture := True\<rparr>)) (\<lambda>out.
     bnd (captured out) (\<lambda>output. ret (split_ws output))))"

definition get_committed_contents ::
  "'w env \<Rightarrow> manager \<Rightarrow> string \<Rightarrow> string \<Rightarrow> string \<Rightarrow> (string option, 'w) prog" where
  "get_committed_contents env self plugin_name filename revision =
     bnd (plugin_item self plugin_name ''directory'') (\<lambda>directory.
       let filename' = relpath env (abspath env filename) (abspath env directory) in
       run env [''git'', ''show'', revision @ '':'' @ filename']
         (kw0\<lparr>kw_cwd := Some directory, kw_capture := True\<rparr>))"

definition sub_autoload :: "string \<Rightarrow> string" where
  \<comment> \<open>\<open>re.sub(r'^autoload/(.+?)\.vim$', r'\1', s)\<close>: \<open>.\<close> matches no newline, and \<open>$\<close>
      matches at the end and before a newline that ends the string\<close>
  "sub_autoload s =
     (let e = (if s \<noteq> [] \<and> last s = CHR 0x0A then [CHR 0x0A] else []);
          core = take (length s - length e) s;
          m = take (length core - 13) (drop 9 core)
      in if startswith core ''autoload/'' \<and> endswith core ''.vim'' \<and> 14 \<le> length core
            \<and> CHR 0x0A \<notin> set m
         then m @ e else s)"

definition replace_char :: "char \<Rightarrow> char \<Rightarrow> string \<Rightarrow> string" where
  \<comment> \<open>\<open>s.replace(a, b)\<close> for single characters\<close>
  "replace_char a b s = map (\<lambda>c. if c = a then b else c) s"

definition find_version_in_repository ::
  "'w env \<Rightarrow> manager \<Rightarrow> string \<Rightarrow> string \<Rightarrow> (string, 'w) prog" where
  "find_version_in_repository env self plugin_name branch_name =
     bnd (plugin_item self plugin_name ''autoload-script'') (\<lambda>autoload_script.
       let autoload_path = sub_autoload autoload_script;
           version_definition = ''let g:'' @ replace_char CHR ''/'' CHR ''#'' autoload_path @ ''#version''
       in
     bnd (logger DEBUG ''Finding local committed version by scanning %s for %r ..''
            [S autoload_script, S version_definition]) (\<lambda>_.
     bnd (get_committed_contents env self plugin_name autoload_script branch_name) (\<lambda>out.
     bnd (captured out) (\<lambda>script_contents.
       case find (\<lambda>line. startswith line version_definition) (splitlines script_contents) of
         Some line \<Rightarrow>
           (let tokens = split_sep1 CHR ''='' line;
                last_token = strip (last tokens);
                version_string = strip_chars [CHR 0x27, CHR 0x22] last_token
            in bnd (logger INFO ''Found last committed version: %s'' [S version_string]) (\<lambda>_.
               ret version_string))
       | None \<Rightarrow>
           raise (Exception (''Failed to determine last committed version of '' @ plugin_name @ ''!''))))))"

subsection \<open>Post-commit hooks\<close>

definition tag_release :: "'w env \<Rightarrow> manager \<Rightarrow> string \<Rightarrow> (unit, 'w) prog" where
  "tag_release env self plugin_name =
     bnd (current_branch env self plugin_name) (\<lambda>branch.
       if branch \<noteq> ''master'' then
         bnd (logger DEBUG ''Not on master branch: skipping release tag.'' []) (\<lambda>_. ret ())
       else
         bnd (find_version_in_repository env self plugin_name ''master'') (\<lambda>version.
         bnd (find_releases env self plugin_name) (\<lambda>releases.
           if version \<in> set releases then
             logger DEBUG ''Tag %s already exists ..'' [S version]
           else
             bnd (logger INFO ''Creating tag for version %s ..'' [S version]) (\<lambda>_.
             bnd (plugin_item self plugin_name ''directory'') (\<lambda>directory.
             bnd (run env [''git'', ''tag'', version] (kw0\<lparr>kw_cwd := Some directory\<rparr>)) (\<lambda>_.
               ret ()))))))"

subsection \<open>Release management\<close>

definition publish_changes_to_github :: "'w env \<Rightarrow> manager \<Rightarrow> string \<Rightarrow> (unit, 'w) prog" where
  "publish_changes_to_github env self plugin_name =
     bnd (logger INFO ''Pushing change sets to GitHub ..'' []) (\<lambda>_.
     bnd (plugin_item self plugin_name ''directory'') (\<lambda>directory.
     bnd (run env [''git'', ''push'', ''origin'', ''master''] (kw0\<lparr>kw_cwd := Some directory\<rparr>)) (\<lambda>_.
     bnd (run env [''git'', ''push'', ''--tags''] (kw0\<lparr>kw_cwd := Some directory\<rparr>)) (\<lambda>_.
       ret ()))))"

text \<open>
  \<open>re.findall('<tr>.+?</tr>', text, re.DOTALL)\<close>: a match starts at \<open><tr>\<close>, takes at
  least one character and ends with the first \<open></tr>\<close> after it; the search goes on
  behind a match.
\<close>

fun upto_close :: "string \<Rightarrow> string option" where
  \<comment> \<open>the shortest prefix that ends with \<open></tr>\<close>\<close>
  "upto_close [] = None"
| "upto_close (c # cs) =
     (if startswith (c # cs) ''</tr>'' then Some ''</tr>''
      else map_option ((#) c) (upto_close cs))"

definition match_tr :: "string \<Rightarrow> string option" where
  "match_tr s =
     (if startswith s ''<tr>'' then
        (case drop 4 s of
           [] \<Rightarrow> None
         | d # ds \<Rightarrow> map_option (\<lambda>body. ''<tr>'' @ d # body) (upto_close ds))
      else None)"

fun findall_tr_skip :: "nat \<Rightarrow> string \<Rightarrow> string list" where
  \<comment> \<open>\<open>n\<close> characters of the last match are still to be passed over\<close>
  "findall_tr_skip n [] = []"
| "findall_tr_skip n (c # cs) =
     (if 0 < n then findall_tr_skip (n - 1) cs
      else (case match_tr (c # cs) of
              None \<Rightarrow> findall_tr_skip 0 cs
            | Some row \<Rightarrow> row # findall_tr_skip (length row - 1) cs))"

definition findall_tr :: "string \<Rightarrow> string list" where
  "findall_tr s = findall_tr_skip 0 s"

text \<open>
  \<open>re.search('<b>(\d+(?:\.\d+)+)</b>', row)\<close>: after \<open><b>\<close> the digits and dots up to
  the next other character must be two or more dot-separated groups of digits, and
  \<open></b>\<close> must follow. The result is group 1 of the first match.
\<close>

definition match_version :: "string \<Rightarrow> string option" where
  "match_version s =
     (if startswith s ''<b>'' then
        (let t = drop 3 s;
             v = takeWhile (\<lambda>c. isdigit c \<or> c = CHR ''.'') t;
             rest = dropWhile (\<lambda>c. isdigit c \<or> c = CHR ''.'') t;
             groups = split_sep CHR ''.'' v
         in if 2 \<le> length groups \<and> list_all (\<lambda>g. g \<noteq> []) groups \<and> startswith rest ''</b>''
            then Some v else None)
      else None)"

fun search_version :: "string \<Rightarrow> string option" where
  "search_version [] = None"
| "search_version (c # cs) =
     (case match_version (c # cs) of
        Some v \<Rightarrow> Some v
      | None \<Rightarrow> search_version cs)"

fun scan_rows :: "string list \<Rightarrow> int list list \<Rightarrow> (int list list, 'w) prog" where
  \<comment> \<open>the loop over the rows; \<open>released_versions\<close> is the accumulator\<close>
  "scan_rows [] released_versions = ret released_versions"
| "scan_rows (html_row # rows) released_versions =
     (if contains html_row ''download_script.php'' then
        (case search_version html_row of
           None \<Rightarrow> raise (AttributeError ''NoneType'')
         | Some version_string \<Rightarrow>
             (let version_number = map int_of_digits (split_sep CHR ''.'' version_string) in
              bnd (logger NOTSET ''Parsed version string %r into %r.''
                     [S version_string, L version_number]) (\<lambda>_.
              scan_rows rows (released_versions @ [version_number]))))
      else scan_rows rows released_versions)"

definition find_version_on_vim_online :: "'w env \<Rightarrow> manager \<Rightarrow> string \<Rightarrow> (string, 'w) prog" where
  "find_version_on_vim_online env self plugin_name =
     bnd (plugin_item self plugin_name ''script-id'') (\<lambda>script_id.
       let vim_online_url = ''http://www.vim.org/scripts/script.php?script_id='' @ script_id in
     bnd (logger DEBUG ''Finding last released version on %s ..'' [S vim_online_url]) (\<lambda>_ s.
       let s1 = s\<lparr>calls := calls s @ [UrlOpen vim_online_url]\<rparr> in
       case urlopen env vim_online_url (world s) of
         None \<Rightarrow> (Inl (IOError vim_online_url), s1)
       | Some (Response code body) \<Rightarrow>
           (if code \<noteq> 200 then
              raise (Exception (''URL '' @ repr_str vim_online_url @ '' resulted in HTTP ''
                                 @ str_int code @ '' response!''))
            else
              bnd (scan_rows (findall_tr body) []) (\<lambda>released_versions.
                if released_versions = [] then
                  raise (Exception (''Failed to find any previous releases on ''
                                     @ repr_str vim_online_url @ ''!''))
                else
                  bnd (logger DEBUG ''Found %i previous releases, sorting to find the latest ..''
                         [I (int (length released_versions))]) (\<lambda>_.
                    let sorted_versions = sort released_versions;
                        previous_release = join ''.'' (map str_int (last sorted_versions))
                    in bnd (logger INFO ''Found last release on Vim Online: %s'' [S previous_release]) (\<lambda>_.
                       ret previous_release)))) s1))"

definition unpack2 :: "string list \<Rightarrow> error + string \<times> string" where
  \<comment> \<open>\<open>a, b = xs\<close>\<close>
  "unpack2 xs =
     (case xs of
        [] \<Rightarrow> Inl (ValueError ''need more than 0 values to unpack'')
      | [a] \<Rightarrow> Inl (ValueError ''need more than 1 value to unpack'')
      | [a, b] \<Rightarrow> Inr (a, b)
      | _ \<Rightarrow> Inl (ValueError ''too many values to unpack''))"

fun changelog_items :: "string \<Rightarrow> string list \<Rightarrow> error + string list" where
  \<comment> \<open>the loop of \<open>generate_changelog\<close> that fills \<open>items\<close>\<close>
  "changelog_items repo_url [] = Inr []"
| "changelog_items repo_url (line # lines) =
     (case unpack2 (split_ws1 line) of
        Inl e \<Rightarrow> Inl e
      | Inr (commit_hash, commit_desc) \<Rightarrow>
          (case changelog_items repo_url lines of
             Inl e \<Rightarrow> Inl e
           | Inr items \<Rightarrow>
               Inr (([CHR '' '', CHR 0x95, CHR '' ''] @ rstrip_chars '':'' (strip commit_desc)
                      @ [CHR '':'', CHR 0x0A]
                      @ ''   '' @ repo_url @ ''/commit/'' @ commit_hash) # items)))"

definition generate_changelog ::
  "'w env \<Rightarrow> manager \<Rightarrow> string \<Rightarrow> string \<Rightarrow> string \<Rightarrow> (string, 'w) prog" where
  "generate_changelog env self plugin_name previous_version current_version =
     bnd (logger DEBUG ''Generating change log based on git commits & tags ..'' []) (\<lambda>_.
       let commit_range = previous_version @ ''..'' @ current_version;
           repo_url = ''http://github.com/'' @ plugin_name
       in
     bnd (plugin_item self plugin_name ''directory'') (\<lambda>directory.
     bnd (run env [''git'', ''log'', ''--pretty=oneline'', ''--abbrev-commit'', commit_range]
            (kw0\<lparr>kw_cwd := Some directory, kw_capture := True\<rparr>)) (\<lambda>out.
     bnd (captured out) (\<lambda>commit_log.
       case changelog_items repo_url (rev (splitlines commit_log)) of
         Inl e \<Rightarrow> raise e
       | Inr items \<Rightarrow>
           (let changelog = join [CHR 0x0A, CHR 0x0A] items in
            bnd (log_lines (splitlines changelog)) (\<lambda>_. ret changelog))))))"

definition approve_changelog :: "'w env \<Rightarrow> string \<Rightarrow> (string, 'w) prog" where
  "approve_changelog env changelog =
     (let fname = ''/tmp/vim-online-changelog'' in
      bnd (write_file fname changelog) (\<lambda>_.
      bnd (logger INFO ''Waiting for approval of change log ..'' []) (\<lambda>_.
      bnd (run env [''gvim'', ''--noplugin'', ''-fc'', ''e ++enc=cp1252 '' @ fname] kw0) (\<lambda>_.
      bnd (read_file fname) (\<lambda>text.
        let changelog' = rstrip text in
      bnd (unlink fname) (\<lambda>_.
      bnd (log_lines (splitlines changelog')) (\<lambda>_. ret changelog')))))))"

definition py_int :: "string \<Rightarrow> error + int" where
  \<comment> \<open>\<open>int(s)\<close> of a string: whitespace around, an optional sign, decimal digits\<close>
  "py_int s =
     (let t = strip s;
          neg = (t \<noteq> [] \<and> hd t = CHR ''-'');
          d = (if t \<noteq> [] \<and> (hd t = CHR ''-'' \<or> hd t = CHR ''+'') then tl t else t)
      in if d \<noteq> [] \<and> list_all isdigit d
         then Inr (if neg then - int_of_digits d else int_of_digits d)
         else Inl (ValueError (''invalid literal for int() with base 10: '' @ repr_str s)))"

definition generate_release_archive :: "'w env \<Rightarrow> manager \<Rightarrow> string \<Rightarrow> (string, 'w) prog" where
  "generate_release_archive env self plugin_name =
     bnd (plugin_item self plugin_name ''zip-file'') (\<lambda>zip_file.
       let filename = ''/tmp/'' @ zip_file in
     bnd (logger INFO ''Saving ZIP archive of HEAD to %s ..'' [S filename]) (\<lambda>_.
     bnd (plugin_item self plugin_name ''directory'') (\<lambda>directory.
     bnd (run env [''git'', ''archive'', ''-o'', filename, ''HEAD''] (kw0\<lparr>kw_cwd := Some directory\<rparr>)) (\<lambda>_.
       ret filename))))"

definition netrc_hosts :: "'w env \<Rightarrow> string \<Rightarrow> string \<Rightarrow> (string \<times> string \<times> string, 'w) prog" where
  \<comment> \<open>\<open>netrc.netrc(path).hosts[host]\<close>\<close>
  "netrc_hosts env path host s =
     (let s1 = s\<lparr>calls := calls s @ [NetrcRead path]\<rparr> in
      case netrc env path (world s) of
        None \<Rightarrow> (Inl (IOError path), s1)
      | Some entries \<Rightarrow>
          (case map_of entries host of
             None \<Rightarrow> (Inl (KeyError host), s1)
           | Some auth \<Rightarrow> (Inr auth, s1)))"

definition session_open :: "'w env \<Rightarrow> string \<Rightarrow> (unit, 'w) prog" where
  \<comment> \<open>\<open>session.open(url)\<close>\<close>
  "session_open env url s =
     (let (failure, w') = mech_open env url (world s);
          s1 = s\<lparr>world := w', calls := calls s @ [MechOpen url]\<rparr>
      in case failure of
           Some msg \<Rightarrow> (Inl (Exception msg), s1)
         | None \<Rightarrow> (Inr (), s1))"

definition session_submit ::
  "'w env \<Rightarrow> string \<Rightarrow> (string \<times> string) list \<Rightarrow> (string \<times> string) option \<Rightarrow> (unit, 'w) prog" where
  \<comment> \<open>\<open>session.select_form(form)\<close>, the assignments to its fields, \<open>add_file\<close> and
      \<open>session.submit()\<close>\<close>
  "session_submit env form form_fields upload s =
     (let (failure, w') = mech_submit env form form_fields upload (world s);
          s1 = s\<lparr>world := w', calls := calls s @ [MechSubmit form form_fields upload]\<rparr>
      in case failure of
           Some msg \<Rightarrow> (Inl (Exception msg), s1)
         | None \<Rightarrow> (Inr (), s1))"

definition of_result :: "error + 'a \<Rightarrow> ('a, 'w) prog" where
  "of_result r = (case r of Inl e \<Rightarrow> raise e | Inr x \<Rightarrow> ret x)"

definition publish_release_to_vim_online ::
  "'w env \<Rightarrow> manager \<Rightarrow> string \<Rightarrow> string \<Rightarrow> string \<Rightarrow> (unit, 'w) prog" where
  "publish_release_to_vim_online env self plugin_name new_version changelog =
     bnd (logger INFO ''Preparing to upload release to Vim Online ..'' []) (\<lambda>_.
     bnd (netrc_hosts env (expanduser env ''~/.netrc'') ''www.vim.org'') (\<lambda>(username, account, password).
     bnd (plugin_item self plugin_name ''script-id'') (\<lambda>sid.
     bnd (of_result (py_int sid)) (\<lambda>script_id.
     bnd (generate_release_archive env self plugin_name) (\<lambda>zip_archive.
     bnd (read_file zip_archive) (\<lambda>zip_handle.
     bnd (logger INFO ''Uploading release to Vim Online (please be patient) ..'' []) (\<lambda>_.
       let add_script_url = ''http://www.vim.org/scripts/add_script_version.php?script_id=''
                             @ str_int script_id in
     bnd (logger DEBUG ''Connecting to Vim Online at %s ..'' [S add_script_url]) (\<lambda>_.
     bnd (session_open env add_script_url) (\<lambda>_.
     bnd (logger DEBUG ''Logging in on Vim Online ..'' []) (\<lambda>_.
     bnd (session_submit env ''login'' [(''userName'', username), (''password'', password)] None) (\<lambda>_.
     bnd (logger DEBUG ''Uploading release archive to Vim Online ..'' []) (\<lambda>_.
     bnd (session_submit env ''script''
            [(''vim_version'', ''7.0''), (''script_version'', new_version),
             (''version_comment'', changelog)]
            (Some (basename env zip_archive, zip_handle))) (\<lambda>_.
     bnd (logger INFO ''Finished uploading release archive!'' []) (\<lambda>_.
     unlink zip_archive))))))))))))))"

definition show_release_on_vim_online :: "'w env \<Rightarrow> manager \<Rightarrow> string \<Rightarrow> (unit, 'w) prog" where
  "show_release_on_vim_online env self plugin_name =
     bnd (plugin_item self plugin_name ''script-id'') (\<lambda>sid.
     bnd (of_result (py_int sid)) (\<lambda>script_id s.
       (Inr (), s\<lparr>calls := calls s @ [WebbrowserOpen
          (''http://www.vim.org/scripts/script.php?script_id='' @ str_int script_id)]\<rparr>)))"

definition run_post_release_hook :: "'w env \<Rightarrow> manager \<Rightarrow> string \<Rightarrow> (unit, 'w) prog" where
  "run_post_release_hook env self plugin_name =
     bnd (logger DEBUG ''Checking for post-release hook ..'' []) (\<lambda>_ s.
       case run env [''which'', ''after-vim-plugin-release''] (kw0\<lparr>kw_capture := True\<rparr>) s of
         (Inl (ExternalCommandFailed msg cmd), s1) \<Rightarrow>
           logger DEBUG ''No post-release hook installed!'' [] s1
       | (Inl e, s1) \<Rightarrow> (Inl e, s1)
       | (Inr out, s1) \<Rightarrow>
           bnd (captured out) (\<lambda>pathname.
           bnd (logger INFO ''Running post-release hook %s ..'' [S pathname]) (\<lambda>_.
           bnd (run env [pathname] kw0) (\<lambda>_. ret ()))) s1)"

definition release_steps :: "'w env \<Rightarrow> manager \<Rightarrow> string \<Rightarrow> (unit, 'w) prog" where
  \<comment> \<open>the body of the \<open>try\<close> statement of \<open>publish_release\<close>\<close>
  "release_steps env self plugin_name =
     bnd (if dry_run self
          then logger WARNING ''Skipping GitHub push because we're doing a dry run.'' []
          else publish_changes_to_github env self plugin_name) (\<lambda>_.
     bnd (plugin_info self plugin_name) (\<lambda>info.
       if map_of info ''script-id'' = None then
         logger INFO ''The plug-in %s does not have a script-id, so can't be published to vim.org.''
           [S plugin_name]
       else
         bnd (find_version_on_vim_online env self plugin_name) (\<lambda>previous_release.
         bnd (find_version_in_repository env self plugin_name ''master'') (\<lambda>committed_version.
           if committed_version = previous_release then
             logger INFO ''Everything up to date!'' []
           else
             bnd (generate_changelog env self plugin_name previous_release committed_version)
               (\<lambda>suggested_changelog.
             bnd (approve_changelog env suggested_changelog) (\<lambda>approved_changelog.
               if strip approved_changelog = [] then
                 logger ERROR ''Empty change log, canceling release ..'' []
               else if dry_run self then
                 logger WARNING ''Skipping Vim Online release because we're doing a dry run.'' []
               else
                 bnd (publish_release_to_vim_online env self plugin_name committed_version
                        approved_changelog) (\<lambda>_.
                 bnd (show_release_on_vim_online env self plugin_name) (\<lambda>_.
                 bnd (run_post_release_hook env self plugin_name) (\<lambda>_.
                   logger INFO ''Done!'' [])))))))))"

definition publish_release :: "'w env \<Rightarrow> manager \<Rightarrow> string \<Rightarrow> (unit, 'w) prog" where
  "publish_release env self plugin_name s =
     (case release_steps env self plugin_name s of
        (Inr u, s1) \<Rightarrow> (Inr u, s1)
      | (Inl (SystemExit n), s1) \<Rightarrow> (Inl (SystemExit n), s1)
      | (Inl (ExternalCommandFailed msg cmd), s1) \<Rightarrow>
          bnd (logger CRITICAL ''External command failed: %s'' [S (join '' '' cmd)]) (\<lambda>_.
          bnd (logger_exception (ExternalCommandFailed msg cmd)) (\<lambda>_.
            raise (SystemExit 1))) s1
      | (Inl e, s1) \<Rightarrow>
          bnd (logger_exception e) (\<lambda>_. raise (SystemExit 1)) s1)"

definition exit_code :: "(error + unit) \<Rightarrow> int" where
  \<comment> \<open>the exit status of the interpreter when the action ends the program: 0 after a
      normal return, the argument of \<open>sys.exit\<close>, 1 for any other exception\<close>
  "exit_code r = (case r of Inr u \<Rightarrow> 0 | Inl (SystemExit n) \<Rightarrow> n | Inl e \<Rightarrow> 1)"

definition run_postcommit_hooks :: "'w env \<Rightarrow> manager \<Rightarrow> (unit, 'w) prog" where
  "run_postcommit_hooks env self =
     bnd (logger INFO ''Running post-commit hooks ..'' []) (\<lambda>_.
     bnd (find_current_plugin env self) (\<lambda>plugin_name.
       tag_release env self plugin_name))"

section \<open>A reference environment\<close>

text \<open>
  A small deterministic stand-in for the collaborators, used to run the program on
  concrete inputs: a repository with a symbolic \<open>HEAD\<close>, committed file contents, tags
  and commit logs; the registry's pages; an editor session that either saves a fixed
  text or fails; and a record of what was uploaded.
\<close>

record sim =
  head_ref :: string
  committed :: "(string \<times> string) list"
  tags :: "string list"
  history :: "(string \<times> string) list"
  pages :: "(string \<times> response) list"
  approval :: "string option"
  hook :: "string option"
  credentials :: "(string \<times> string \<times> string \<times> string) list option"
  uploads :: "call list"

definition valid_tag :: "string \<Rightarrow> bool" where
  "valid_tag v = (v \<noteq> [] \<and> list_all (\<lambda>c. \<not> isspace c) v)"

definition sim_popen ::
  "string list \<Rightarrow> string \<Rightarrow> string option \<Rightarrow> bool \<Rightarrow> filesystem \<times> sim \<Rightarrow> proc \<times> filesystem \<times> sim" where
  "sim_popen args cwd inp capture x =
     (let fs = fst x; w = snd x;
          failed = (\<lambda>code. (Exited code [], fs, w));
          no_such = (SpawnFailed ''No such file or directory'', fs, w)
      in case args of
        [a] \<Rightarrow> if hook w = Some a then (Exited 0 [], fs, w) else no_such
      | [a, b] \<Rightarrow>
          if a = ''git'' \<and> b = ''tag'' then
            (Exited 0 (concat (map (\<lambda>t. t @ [CHR 0x0A]) (tags w))), fs, w)
          else if a = ''which'' \<and> b = ''after-vim-plugin-release'' then
            (case hook w of None \<Rightarrow> failed 1 | Some path \<Rightarrow> (Exited 0 (path @ [CHR 0x0A]), fs, w))
          else no_such
      | [a, b, c] \<Rightarrow>
          if a = ''git'' \<and> b = ''symbolic-ref'' \<and> c = ''HEAD'' then
            (Exited 0 (head_ref w @ [CHR 0x0A]), fs, w)
          else if a = ''git'' \<and> b = ''show'' then
            (case map_of (committed w) c of
               None \<Rightarrow> failed 128
             | Some text \<Rightarrow> (Exited 0 text, fs, w))
          else if a = ''git'' \<and> b = ''tag'' then
            (if valid_tag c \<and> c \<notin> set (tags w)
             then (Exited 0 [], fs, w\<lparr>tags := tags w @ [c]\<rparr>) else failed 128)
          else if a = ''git'' \<and> b = ''push'' then (Exited 0 [], fs, w)
          else no_such
      | [a, b, c, d] \<Rightarrow>
          if a = ''git'' \<and> b = ''push'' then (Exited 0 [], fs, w)
          else if a = ''gvim'' then
            (case approval w of
               None \<Rightarrow> failed 1
             | Some text \<Rightarrow> (Exited 0 [], fs(''/tmp/vim-online-changelog'' \<mapsto> text), w))
          else no_such
      | [a, b, c, d, e] \<Rightarrow>
          if a = ''git'' \<and> b = ''log'' then
            (case map_of (history w) e of
               None \<Rightarrow> failed 128
             | Some text \<Rightarrow> (Exited 0 text, fs, w))
          else if a = ''git'' \<and> b = ''archive'' then (Exited 0 [], fs(d \<mapsto> ''PK''), w)
          else no_such
      | _ \<Rightarrow> no_such)"

definition sim_abspath :: "string \<Rightarrow> string \<Rightarrow> string" where
  "sim_abspath cwd path =
     (if path = ''.'' then cwd else if startswith path ''/'' then path else cwd @ ''/'' @ path)"

definition sim_relpath :: "string \<Rightarrow> string \<Rightarrow> string" where
  "sim_relpath path start =
     (if startswith path (start @ ''/'') then drop (length start + 1) path else path)"

definition sim_env :: "string \<Rightarrow> sim env" where
  \<comment> \<open>\<open>cwd\<close> is the working directory of the program itself\<close>
  "sim_env cwd =
     \<lparr>popen = sim_popen,
      urlopen = (\<lambda>url w. map_of (pages w) url),
      netrc = (\<lambda>path w. credentials w),
      mech_open = (\<lambda>url w. (None, w)),
      mech_submit = (\<lambda>form form_fields upload w.
         (None, w\<lparr>uploads := uploads w @ [MechSubmit form form_fields upload]\<rparr>)),
      abspath = sim_abspath cwd,
      realpath = sim_abspath cwd,
      relpath = sim_relpath,
      expanduser = (\<lambda>path. if startswith path ''~'' then ''/home/user'' @ drop 1 path else path),
      basename = (\<lambda>path. last (split_sep CHR ''/'' path))\<rparr>"

definition sim0 :: sim where
  \<comment> \<open>the component \<open>acme/widget\<close>: version 1.2.0 committed, 1.1.0 published, tags 1.0.0 and
      1.1.0, three commits since 1.1.0\<close>
  "sim0 =
     \<lparr>head_ref = ''refs/heads/master'',
      committed = [(''master:autoload/widget.vim'',
                    [CHR 0x22] @ '' Widget'' @ [CHR 0x0A] @ ''let g:widget#version = ''
                      @ [CHR 0x27] @ ''1.2.0'' @ [CHR 0x27, CHR 0x0A])],
      tags = [''1.0.0'', ''1.1.0''],
      history = [(''1.1.0..1.2.0'',
                  ''c3c3c3c Refactor'' @ [CHR 0x0A] @ ''b2b2b2b Add docs:'' @ [CHR 0x0A]
                    @ ''a1a1a1a Fix off-by-one'' @ [CHR 0x0A])],
      pages = [(''http://www.vim.org/scripts/script.php?script_id=42'',
                Response 200
                  (''<table><tr><td><a href=download_script.php?src_id=2>widget.zip</a></td>''
                   @ ''<td><b>1.1.0</b></td></tr>'' @ [CHR 0x0A]
                   @ ''<tr><td><a href=download_script.php?src_id=1>widget.zip</a></td>''
                   @ ''<td><b>1.0.0</b></td></tr></table>''))],
      approval = Some '' - Fix off-by-one'',
      hook = None,
      credentials = Some [(''www.vim.org'', ''user'', [], ''secret'')],
      uploads = []\<rparr>"

definition widget :: "(string \<times> string) list" where
  "widget =
     [(''name'', ''acme/widget''), (''directory'', ''/home/user/widget''),
      (''script-id'', ''42''), (''autoload-script'', ''autoload/widget.vim''),
      (''zip-file'', ''widget.zip'')]"

definition manager0 :: "bool \<Rightarrow> manager" where
  "manager0 dry = \<lparr>plugins = [(''acme/widget'', widget)], dry_run = dry\<rparr>"

definition state0 :: "sim \<Rightarrow> sim state" where
  "state0 w = \<lparr>files = Map.empty, world = w, calls = [], logged = []\<rparr>"

section \<open>Notions used in the statements\<close>

definition decodable :: "string \<Rightarrow> bool" where
  \<comment> \<open>every byte has a code point in CP-1252\<close>
  "decodable s = list_all (\<lambda>c. decode_cp1252 c \<noteq> None) s"

definition oneline_commit :: "string \<times> string \<Rightarrow> bool" where
  \<comment> \<open>an abbreviated hash and a one-line summary as \<open>git log --pretty=oneline\<close> prints
      them: the hash is a word, the summary has a visible character and no line break\<close>
  "oneline_commit c =
     (fst c \<noteq> [] \<and> list_all (\<lambda>x. \<not> isspace x) (fst c)
      \<and> list_ex (\<lambda>x. \<not> isspace x) (snd c)
      \<and> list_all (\<lambda>x. x \<noteq> CHR 0x0A \<and> x \<noteq> CHR 0x0D) (snd c)
      \<and> decodable (fst c) \<and> decodable (snd c))"

definition oneline :: "string \<times> string \<Rightarrow> string" where
  \<comment> \<open>the line \<open>git log --pretty=oneline --abbrev-commit\<close> prints for a commit\<close>
  "oneline c = fst c @ '' '' @ snd c"

definition entry :: "string \<Rightarrow> string \<times> string \<Rightarrow> string" where
  \<comment> \<open>a change log entry as the specification describes it: a bullet, the summary
      without surrounding whitespace and trailing colons, a colon, and on the next line
      the link to the commit\<close>
  "entry plugin_name c =
     [CHR '' '', CHR 0x95, CHR '' ''] @ rstrip_chars '':'' (strip (snd c)) @ '':'' @ [CHR 0x0A]
       @ ''   http://github.com/'' @ plugin_name @ ''/commit/'' @ fst c"

definition download_rows :: "string \<Rightarrow> string list" where
  \<comment> \<open>the table rows of the registry's page that link to a download\<close>
  "download_rows body = filter (\<lambda>row. contains row ''download_script.php'') (findall_tr body)"

definition version_strings :: "string \<Rightarrow> string list" where
  \<comment> \<open>the version strings scraped from those rows\<close>
  "version_strings body = List.map_filter search_version (download_rows body)"

definition version_number :: "string \<Rightarrow> int list" where
  \<comment> \<open>a dotted version string as its sequence of integers\<close>
  "version_number v = map int_of_digits (split_sep CHR ''.'' v)"

definition page29 :: string where
  \<comment> \<open>a page of the registry that lists the versions 2.9 and 2.10\<close>
  "page29 = ''<tr><td><a href=download_script.php?src_id=1>w.zip</a></td><td><b>2.9</b></td></tr>''
          @ ''<tr><td><a href=download_script.php?src_id=2>w.zip</a></td><td><b>2.10</b></td></tr>''"

text \<open>The external calls by what they do.\<close>

datatype kind =
    Push | Show | Log | Editor | TagList | TagCreate | SymbolicRef | Archive | OtherProcess
  | RegistryQuery | Credentials | Upload | Browser

fun kind_of :: "call \<Rightarrow> kind" where
  "kind_of (Popen args cwd inp capture) =
     (if take 2 args = [''git'', ''push''] then Push
      else if take 2 args = [''git'', ''show''] then Show
      else if take 2 args = [''git'', ''log''] then Log
      else if take 1 args = [''gvim''] then Editor
      else if args = [''git'', ''tag''] then TagList
      else if take 2 args = [''git'', ''tag''] then TagCreate
      else if take 2 args = [''git'', ''symbolic-ref''] then SymbolicRef
      else if take 2 args = [''git'', ''archive''] then Archive
      else OtherProcess)"
| "kind_of (UrlOpen url) = RegistryQuery"
| "kind_of (NetrcRead path) = Credentials"
| "kind_of (MechOpen url) = Upload"
| "kind_of (MechSubmit form form_fields upload) = Upload"
| "kind_of (WebbrowserOpen url) = Browser"

definition emits :: "(call \<Rightarrow> bool) \<Rightarrow> ('a, 'w) prog \<Rightarrow> bool" where
  \<comment> \<open>a program only appends to the calls and to the log, and every call it appends
      satisfies \<open>P\<close>\<close>
  "emits P m =
     (\<forall>s. \<exists>new added. calls (snd (m s)) = calls s @ new \<and> list_all P new
                    \<and> logged (snd (m s)) = logged s @ added)"

definition push_step :: "'w env \<Rightarrow> manager \<Rightarrow> string \<Rightarrow> (unit, 'w) prog" where
  \<comment> \<open>the first statement of \<open>publish_release\<close>\<close>
  "push_step env self plugin_name =
     (if dry_run self
      then logger WARNING ''Skipping GitHub push because we're doing a dry run.'' []
      else publish_changes_to_github env self plugin_name)"

text \<open>
  The statements of \<open>publish_release\<close> from a given point on, named so that a run can be
  followed step by step: what follows the approval, what follows the two version
  lookups, and what follows the registry lookup.
\<close>

definition after_approval :: "'w env \<Rightarrow> manager \<Rightarrow> string \<Rightarrow> string \<Rightarrow> string \<Rightarrow> (unit, 'w) prog" where
  "after_approval env self plugin_name committed_version approved_changelog =
     (if strip approved_changelog = [] then
        logger ERROR ''Empty change log, canceling release ..'' []
      else if dry_run self then
        logger WARNING ''Skipping Vim Online release because we're doing a dry run.'' []
      else
        bnd (publish_release_to_vim_online env self plugin_name committed_version
               approved_changelog) (\<lambda>_.
        bnd (show_release_on_vim_online env self plugin_name) (\<lambda>_.
        bnd (run_post_release_hook env self plugin_name) (\<lambda>_.
          logger INFO ''Done!'' []))))"

definition after_versions :: "'w env \<Rightarrow> manager \<Rightarrow> string \<Rightarrow> string \<Rightarrow> string \<Rightarrow> (unit, 'w) prog" where
  "after_versions env self plugin_name previous_release committed_version =
     (if committed_version = previous_release then
        logger INFO ''Everything up to date!'' []
      else
        bnd (generate_changelog env self plugin_name previous_release committed_version)
          (\<lambda>suggested_changelog.
        bnd (approve_changelog env suggested_changelog)
          (after_approval env self plugin_name committed_version)))"

definition after_registry :: "'w env \<Rightarrow> manager \<Rightarrow> string \<Rightarrow> string \<Rightarrow> (unit, 'w) prog" where
  "after_registry env self plugin_name previous_release =
     bnd (find_version_in_repository env self plugin_name ''master'')
       (after_versions env self plugin_name previous_release)"

definition sim_released :: sim where
  \<comment> \<open>as \<open>sim0\<close>, but the committed version is the published one\<close>
  "sim_released =
     sim0\<lparr>committed := [(''master:autoload/widget.vim'',
                           ''let g:widget#version = '' @ [CHR 0x27] @ ''1.1.0'' @ [CHR 0x27, CHR 0x0A])]\<rparr>"

definition sim_cleared :: sim where
  \<comment> \<open>as \<open>sim0\<close>, but the human clears the change log in the editor\<close>
  "sim_cleared = sim0\<lparr>approval := Some [CHR 0x0A]\<rparr>"

definition sim_no_commits :: sim where
  \<comment> \<open>as \<open>sim0\<close>, but the commit range is empty; the human writes a change log\<close>
  "sim_no_commits = sim0\<lparr>history := [(''1.1.0..1.2.0'', [])]\<rparr>"

section \<open>Properties\<close>

lemma split_sep_nonempty: "split_sep c s \<noteq> []"
  by (induction s) (auto split: list.splits)

subsection \<open>Strings\<close>

lemma rstrip_of_decomp:
  "\<exists>b. s = rstrip_of P s @ b \<and> list_all P b"
proof -
  have "rev s = takeWhile P (rev s) @ dropWhile P (rev s)" by simp
  then have "s = rev (dropWhile P (rev s)) @ rev (takeWhile P (rev s))"
    by (metis rev_append rev_rev_ident)
  moreover have "list_all P (rev (takeWhile P (rev s)))"
    by (simp add: list_all_iff) (meson set_takeWhileD)
  ultimately show ?thesis unfolding rstrip_of_def by blast
qed

lemma rstrip_of_last: "rstrip_of P s \<noteq> [] \<Longrightarrow> \<not> P (last (rstrip_of P s))"
  unfolding rstrip_of_def
  by (metis hd_dropWhile last_rev rev_is_Nil_conv)

lemma lstrip_of_decomp: "\<exists>a. s = a @ lstrip_of P s \<and> list_all P a"
  unfolding lstrip_of_def
  by (rule exI[of _ "takeWhile P s"]) (simp add: list_all_iff, meson set_takeWhileD)

lemma lstrip_of_hd: "lstrip_of P s \<noteq> [] \<Longrightarrow> \<not> P (hd (lstrip_of P s))"
  unfolding lstrip_of_def by (simp add: hd_dropWhile)

lemma strip_of_trimmed:
  "\<exists>a b. s = a @ strip_of P s @ b \<and> list_all P a \<and> list_all P b
        \<and> (strip_of P s = [] \<or> (\<not> P (hd (strip_of P s)) \<and> \<not> P (last (strip_of P s))))"
proof -
  obtain a where a: "s = a @ lstrip_of P s" "list_all P a" using lstrip_of_decomp by blast
  obtain b where b: "lstrip_of P s = strip_of P s @ b" "list_all P b"
    unfolding strip_of_def using rstrip_of_decomp by blast
  have "\<not> P (hd (strip_of P s))" if ne: "strip_of P s \<noteq> []"
  proof -
    have "hd (lstrip_of P s) = hd (strip_of P s)" using b(1) ne by (metis hd_append2)
    moreover have "lstrip_of P s \<noteq> []" using b(1) ne by auto
    ultimately show ?thesis using lstrip_of_hd by metis
  qed
  moreover have "\<not> P (last (strip_of P s))" if ne: "strip_of P s \<noteq> []"
    using ne rstrip_of_last unfolding strip_of_def by blast
  ultimately show ?thesis using a b by (metis append.assoc)
qed

lemmas strip_simps = strip_def rstrip_def strip_chars_def rstrip_chars_def strip_of_def
  lstrip_of_def rstrip_of_def isspace_def

lemma endswith_append: "endswith (a @ b) b"
  by (simp add: endswith_def startswith_def)

lemmas sim_simps = sim_env_def sim_popen_def sim_abspath_def sim_relpath_def state0_def
  sim0_def manager0_def widget_def valid_tag_def startswith_def kw0_def context_cwd_def

subsection \<open>The command runner\<close>

text \<open>
  Claim C8. For every invocation of \<open>run\<close> whose child process exits: with return code 0
  the result is the child's standard output with leading and trailing whitespace trimmed
  when capture was requested, and no value otherwise; with a nonzero return code and the
  check not suppressed it raises \<open>ExternalCommandFailed\<close>, whose \<open>command\<close> is the exact
  argument vector and whose message ends with the working directory the child was run in.
  The last conjunct says what trimmed means: what is cut off at both ends is whitespace,
  and what remains neither starts nor ends with whitespace.
\<close>

theorem run_contract:
  assumes "popen env args (context_cwd env kw) (kw_input kw) (kw_capture kw) (files s, world s)
             = (Exited returncode out, x)"
  shows "(returncode = 0 \<longrightarrow>
            fst (run env args kw s) = Inr (if kw_capture kw then Some (strip out) else None))
       \<and> (returncode \<noteq> 0 \<and> kw_check kw \<longrightarrow>
            (\<exists>msg. fst (run env args kw s) = Inl (ExternalCommandFailed msg args)
                  \<and> command (ExternalCommandFailed msg args) = args
                  \<and> endswith msg (''(working directory: '' @ context_cwd env kw @ '')'')))
       \<and> (\<exists>a b. out = a @ strip out @ b \<and> list_all isspace a \<and> list_all isspace b
                \<and> (strip out = [] \<or> (\<not> isspace (hd (strip out)) \<and> \<not> isspace (last (strip out)))))"
proof (intro conjI impI)
  assume "returncode = 0"
  then show "fst (run env args kw s) = Inr (if kw_capture kw then Some (strip out) else None)"
    using assms by (cases x) (simp add: run_def Let_def)
next
  assume "returncode \<noteq> 0 \<and> kw_check kw"
  then have "fst (run env args kw s) = Inl (ExternalCommandFailed
       (''External command '' @ repr_tuple args @ '' exited with code '' @ str_int returncode
          @ '' (working directory: '' @ context_cwd env kw @ '')'') args)"
    using assms by (cases x) (simp add: run_def Let_def)
  moreover have "endswith (''External command '' @ repr_tuple args @ '' exited with code '' @ str_int returncode
          @ '' (working directory: '' @ context_cwd env kw @ '')'') (''(working directory: '' @ context_cwd env kw @ '')'')"
  proof -
    have "''External command '' @ repr_tuple args @ '' exited with code '' @ str_int returncode
          @ '' (working directory: '' @ context_cwd env kw @ '')''
        = (''External command '' @ repr_tuple args @ '' exited with code '' @ str_int returncode @ '' '')
          @ (''(working directory: '' @ context_cwd env kw @ '')'')" by simp
    then show ?thesis using endswith_append by metis
  qed
  ultimately show "\<exists>msg. fst (run env args kw s) = Inl (ExternalCommandFailed msg args)
                  \<and> command (ExternalCommandFailed msg args) = args
                  \<and> endswith msg (''(working directory: '' @ context_cwd env kw @ '')'')"
    by auto
next
  show "\<exists>a b. out = a @ strip out @ b \<and> list_all isspace a \<and> list_all isspace b
                \<and> (strip out = [] \<or> (\<not> isspace (hd (strip out)) \<and> \<not> isspace (last (strip out))))"
    unfolding strip_def by (rule strip_of_trimmed)
qed

theorem run_contract_witness:
  "fst (run (sim_env ''/home/user/widget'') [''git'', ''symbolic-ref'', ''HEAD'']
          (kw0\<lparr>kw_capture := True\<rparr>) (state0 sim0)) = Inr (Some ''refs/heads/master'')
   \<and> fst (run (sim_env ''/home/user/widget'') [''git'', ''push'', ''--tags'']
          (kw0\<lparr>kw_cwd := Some ''/home/user/widget''\<rparr>) (state0 sim0)) = Inr None
   \<and> (\<exists>msg. fst (run (sim_env ''/home/user/widget'') [''git'', ''show'', ''nothing'']
                   (kw0\<lparr>kw_cwd := Some ''/home/user/widget''\<rparr>) (state0 sim0))
               = Inl (ExternalCommandFailed msg [''git'', ''show'', ''nothing''])
             \<and> endswith msg ''(working directory: /home/user/widget)'')"
proof -
  let ?E = "sim_env ''/home/user/widget''"
  let ?k1 = "kw0\<lparr>kw_capture := True\<rparr>"
  let ?k2 = "kw0\<lparr>kw_cwd := Some ''/home/user/widget''\<rparr>"
  have h1: "popen ?E [''git'', ''symbolic-ref'', ''HEAD''] (context_cwd ?E ?k1) (kw_input ?k1)
              (kw_capture ?k1) (files (state0 sim0), world (state0 sim0))
            = (Exited 0 (''refs/heads/master'' @ [CHR 0x0A]), Map.empty, sim0)"
    by (simp add: sim_simps)
  have h2: "popen ?E [''git'', ''push'', ''--tags''] (context_cwd ?E ?k2) (kw_input ?k2)
              (kw_capture ?k2) (files (state0 sim0), world (state0 sim0))
            = (Exited 0 [], Map.empty, sim0)"
    by (simp add: sim_simps)
  have h3: "popen ?E [''git'', ''show'', ''nothing''] (context_cwd ?E ?k2) (kw_input ?k2)
              (kw_capture ?k2) (files (state0 sim0), world (state0 sim0))
            = (Exited 128 [], Map.empty, sim0)"
    by (simp add: sim_simps)
  have c: "context_cwd ?E ?k2 = ''/home/user/widget''" by (simp add: sim_simps)
  have k: "kw_check ?k2" "kw_capture ?k1" "\<not> kw_capture ?k2" by (simp_all add: kw0_def)
  have s: "strip (''refs/heads/master'' @ [CHR 0x0A]) = ''refs/heads/master''"
    by (simp add: strip_simps)
  show ?thesis
    using run_contract[OF h1] run_contract[OF h2] run_contract[OF h3] c k s by simp
qed

lemma startswith_iff: "startswith s p \<longleftrightarrow> (\<exists>rest. s = p @ rest)"
  unfolding startswith_def
  by (metis append_eq_conv_conj append_take_drop_id)

lemmas prog_simps = bnd_def ret_def raise_def logger_def item_def plugin_info_def
  plugin_item_def captured_def of_result_def

subsection \<open>Finding the current plug-in and its branch\<close>

lemma find_matching_plugin_Inr:
  "fst (find_matching_plugin env cur ps s) = Inr name \<Longrightarrow>
     \<exists>info d. (name, info) \<in> set ps \<and> map_of info ''directory'' = Some d
            \<and> startswith cur (realpath env d)"
proof (induction ps arbitrary: s)
  case Nil
  then show ?case by (simp add: prog_simps)
next
  case (Cons p ps)
  obtain n info where p: "p = (n, info)" by (cases p)
  show ?case
  proof (cases "map_of info ''directory''")
    case None
    then show ?thesis using Cons.prems p by (simp add: prog_simps)
  next
    case (Some d)
    show ?thesis
    proof (cases "startswith cur (realpath env d)")
      case True
      then have "name = n" using Cons.prems p Some by (simp add: prog_simps Let_def)
      then show ?thesis using True Some p by auto
    next
      case False
      then have "fst (find_matching_plugin env cur ps s) = Inr name"
        using Cons.prems p Some by (simp add: prog_simps Let_def)
      from Cons.IH[OF this] show ?thesis by auto
    qed
  qed
qed

lemma find_matching_plugin_none:
  "list_all (\<lambda>p. \<exists>d. map_of (snd p) ''directory'' = Some d \<and> \<not> startswith cur (realpath env d)) ps \<Longrightarrow>
   find_matching_plugin env cur ps s =
     (Inl (Exception (''The directory '' @ repr_str cur @ '' doesn't contain a known Vim plug-in!'')), s)"
proof (induction ps)
  case Nil
  then show ?case by (simp add: prog_simps)
next
  case (Cons p ps)
  obtain n info where p: "p = (n, info)" by (cases p)
  from Cons.prems p obtain d where d: "map_of info ''directory'' = Some d"
     "\<not> startswith cur (realpath env d)" by auto
  then show ?case using Cons p by (simp add: prog_simps Let_def)
qed

lemma find_matching_plugin_first:
  "map_of info ''directory'' = Some d \<Longrightarrow> startswith cur (realpath env d) \<Longrightarrow>
   fst (find_matching_plugin env cur ((name, info) # ps) s) = Inr name"
  by (simp add: prog_simps Let_def)

lemma find_matching_plugin_some:
  "list_all (\<lambda>p. map_of (snd p) ''directory'' \<noteq> None) ps \<Longrightarrow>
   list_ex (\<lambda>p. \<exists>d. map_of (snd p) ''directory'' = Some d \<and> startswith cur (realpath env d)) ps \<Longrightarrow>
   \<exists>name. fst (find_matching_plugin env cur ps s) = Inr name"
proof (induction ps)
  case Nil
  then show ?case by simp
next
  case (Cons p ps)
  obtain n info where p: "p = (n, info)" by (cases p)
  from Cons.prems(1) p obtain d where d: "map_of info ''directory'' = Some d" by auto
  show ?case
  proof (cases "startswith cur (realpath env d)")
    case True
    then show ?thesis using p d by (simp add: prog_simps Let_def)
  next
    case False
    then have "list_ex (\<lambda>p. \<exists>d. map_of (snd p) ''directory'' = Some d
                  \<and> startswith cur (realpath env d)) ps"
      using Cons.prems(2) p d by auto
    from Cons.IH[OF _ this] Cons.prems(1) obtain name
      where "fst (find_matching_plugin env cur ps s) = Inr name" by auto
    then show ?thesis using p d False by (simp add: prog_simps Let_def)
  qed
qed

text \<open>
  Claim C10. \<open>find_current_plugin\<close> matches real paths as strings: a name it returns is
  that of a configured plug-in whose directory's real path is a string prefix of the real
  path of the current directory; when every configured plug-in has a directory and none
  is such a prefix it raises the exception with the message of the source; and when some
  configured directory is such a prefix it returns a name. Nothing asks that the prefix
  ends at a path separator, so a sibling directory whose path extends a configured one is
  attributed to that plug-in (the witness runs it in \<open>/home/user/widget-extras\<close>).
\<close>

theorem find_current_plugin_prefix:
  "(\<forall>name. fst (find_current_plugin env self s) = Inr name \<longrightarrow>
      (\<exists>info d rest. (name, info) \<in> set (plugins self) \<and> map_of info ''directory'' = Some d
                    \<and> realpath env ''.'' = realpath env d @ rest))
   \<and> ((\<forall>p \<in> set (plugins self). \<exists>d. map_of (snd p) ''directory'' = Some d
                                      \<and> (\<forall>rest. realpath env ''.'' \<noteq> realpath env d @ rest)) \<longrightarrow>
        fst (find_current_plugin env self s) =
          Inl (Exception (''The directory '' @ repr_str (realpath env ''.'')
                           @ '' doesn't contain a known Vim plug-in!'')))
   \<and> ((\<forall>p \<in> set (plugins self). map_of (snd p) ''directory'' \<noteq> None)
        \<and> (\<exists>p \<in> set (plugins self). \<exists>d ext. map_of (snd p) ''directory'' = Some d
                                         \<and> realpath env ''.'' = realpath env d @ ext) \<longrightarrow>
        (\<exists>name. fst (find_current_plugin env self s) = Inr name))"
proof (intro conjI allI impI)
  fix name
  assume "fst (find_current_plugin env self s) = Inr name"
  then have "fst (find_matching_plugin env (realpath env ''.'') (plugins self)
               (s\<lparr>logged := logged s @ [(DEBUG, Fmt ''Finding current plug-in based on current working directory ..'' [])]\<rparr>)) = Inr name"
    by (simp add: find_current_plugin_def prog_simps Let_def)
  from find_matching_plugin_Inr[OF this]
  show "\<exists>info d rest. (name, info) \<in> set (plugins self) \<and> map_of info ''directory'' = Some d
                    \<and> realpath env ''.'' = realpath env d @ rest"
    by (auto simp: startswith_iff)
next
  assume "\<forall>p \<in> set (plugins self). \<exists>d. map_of (snd p) ''directory'' = Some d
                                      \<and> (\<forall>rest. realpath env ''.'' \<noteq> realpath env d @ rest)"
  then have "list_all (\<lambda>p. \<exists>d. map_of (snd p) ''directory'' = Some d
                \<and> \<not> startswith (realpath env ''.'') (realpath env d)) (plugins self)"
    by (simp add: list_all_iff startswith_iff)
  from find_matching_plugin_none[OF this]
  show "fst (find_current_plugin env self s) =
          Inl (Exception (''The directory '' @ repr_str (realpath env ''.'')
                           @ '' doesn't contain a known Vim plug-in!''))"
    by (simp add: find_current_plugin_def prog_simps Let_def)
next
  assume a: "(\<forall>p \<in> set (plugins self). map_of (snd p) ''directory'' \<noteq> None)
        \<and> (\<exists>p \<in> set (plugins self). \<exists>d ext. map_of (snd p) ''directory'' = Some d
                                         \<and> realpath env ''.'' = realpath env d @ ext)"
  then have "list_all (\<lambda>p. map_of (snd p) ''directory'' \<noteq> None) (plugins self)"
    and "list_ex (\<lambda>p. \<exists>d. map_of (snd p) ''directory'' = Some d
                     \<and> startswith (realpath env ''.'') (realpath env d)) (plugins self)"
    by (auto simp: list_all_iff list_ex_iff startswith_iff)
  from find_matching_plugin_some[OF this]
  show "\<exists>name. fst (find_current_plugin env self s) = Inr name"
    by (simp add: find_current_plugin_def prog_simps Let_def)
qed

theorem find_current_plugin_prefix_witness:
  "fst (find_current_plugin (sim_env ''/home/user/widget-extras'') (manager0 False) (state0 sim0))
     = Inr ''acme/widget''
   \<and> (\<exists>info d rest. (''acme/widget'', info) \<in> set (plugins (manager0 False))
         \<and> map_of info ''directory'' = Some d
         \<and> realpath (sim_env ''/home/user/widget-extras'') ''.''
             = realpath (sim_env ''/home/user/widget-extras'') d @ rest)
   \<and> fst (find_current_plugin (sim_env ''/home/user/gadget'') (manager0 False) (state0 sim0))
       = Inl (Exception (''The directory '' @ [CHR 0x27] @ ''/home/user/gadget'' @ [CHR 0x27]
                          @ '' doesn't contain a known Vim plug-in!''))
   \<and> (\<exists>name. fst (find_current_plugin (sim_env ''/home/user/widget/autoload'') (manager0 False)
                    (state0 sim0)) = Inr name)"
proof -
  let ?E = "sim_env ''/home/user/widget-extras''"
  let ?G = "sim_env ''/home/user/gadget''"
  let ?A = "sim_env ''/home/user/widget/autoload''"
  have r: "fst (find_current_plugin ?E (manager0 False) (state0 sim0)) = Inr ''acme/widget''"
    by (simp add: find_current_plugin_def prog_simps sim_simps Let_def)
  have g: "\<forall>p \<in> set (plugins (manager0 False)). \<exists>d. map_of (snd p) ''directory'' = Some d
             \<and> (\<forall>rest. realpath ?G ''.'' \<noteq> realpath ?G d @ rest)"
    by (simp add: sim_simps)
  have a: "(\<forall>p \<in> set (plugins (manager0 False)). map_of (snd p) ''directory'' \<noteq> None)
        \<and> (\<exists>p \<in> set (plugins (manager0 False)). \<exists>d ext. map_of (snd p) ''directory'' = Some d
              \<and> realpath ?A ''.'' = realpath ?A d @ ext)"
    by (simp add: sim_simps)
  have rg: "repr_str (realpath ?G ''.'') = [CHR 0x27] @ ''/home/user/gadget'' @ [CHR 0x27]"
    by (simp add: sim_simps repr_str_def repr_char_def Let_def)
  note T1 = find_current_plugin_prefix[of ?E "manager0 False" "state0 sim0"]
  note T2 = find_current_plugin_prefix[of ?G "manager0 False" "state0 sim0"]
  note T3 = find_current_plugin_prefix[of ?A "manager0 False" "state0 sim0"]
  have 1: "\<exists>info d rest. (''acme/widget'', info) \<in> set (plugins (manager0 False))
         \<and> map_of info ''directory'' = Some d \<and> realpath ?E ''.'' = realpath ?E d @ rest"
    by (rule T1[THEN conjunct1, THEN spec, THEN mp, OF r])
  have "fst (find_current_plugin ?G (manager0 False) (state0 sim0)) =
          Inl (Exception (''The directory '' @ repr_str (realpath ?G ''.'')
                           @ '' doesn't contain a known Vim plug-in!''))"
    by (rule T2[THEN conjunct2, THEN conjunct1, THEN mp, OF g])
  then have 2: "fst (find_current_plugin ?G (manager0 False) (state0 sim0))
       = Inl (Exception (''The directory '' @ [CHR 0x27] @ ''/home/user/gadget'' @ [CHR 0x27]
                          @ '' doesn't contain a known Vim plug-in!''))"
    unfolding rg by simp
  have 3: "\<exists>name. fst (find_current_plugin ?A (manager0 False) (state0 sim0)) = Inr name"
    by (rule T3[THEN conjunct2, THEN conjunct2, THEN mp, OF a])
  show ?thesis using r 1 2 3 by (intro conjI)
qed

text \<open>
  Claim C9. \<open>current_branch\<close> returns what follows the last \<open>/\<close> of the symbolic
  reference of \<open>HEAD\<close>. With the branch \<open>feature/login\<close> checked out it returns
  \<open>login\<close>, which is not the name of the branch.
\<close>

theorem current_branch_drops_prefix:
  "fst (current_branch (sim_env ''/home/user/widget'') (manager0 False) ''acme/widget''
          (state0 (sim0\<lparr>head_ref := ''refs/heads/feature/login''\<rparr>))) = Inr ''login''"
  by (simp add: current_branch_def run_def prog_simps sim_simps strip_simps Let_def)

subsection \<open>Approving the change log\<close>

lemma log_lines_files: "files (snd (log_lines ls s)) = files s"
  by (induction ls arbitrary: s) (auto simp: prog_simps split: sum.splits)

lemma log_lines_world: "world (snd (log_lines ls s)) = world s"
  by (induction ls arbitrary: s) (auto simp: prog_simps split: sum.splits)

lemma log_lines_calls: "calls (snd (log_lines ls s)) = calls s"
  by (induction ls arbitrary: s) (auto simp: prog_simps split: sum.splits)

lemma log_lines_ok:
  "list_all (\<lambda>l. \<not> isl (cp1252_to_utf8 l)) ls \<Longrightarrow> fst (log_lines ls s) = Inr ()"
  by (induction ls arbitrary: s) (auto simp: prog_simps split: sum.splits)

text \<open>
  Claim C7, as amended. \<open>approve_changelog\<close> deletes the transient file once the editor
  has exited with return code 0: the file is then gone whether the function returns or
  raises, and it returns the text the editor left, stripped at the right, when every line
  of it decodes. When the editor step fails (a nonzero return code, or the editor cannot
  be started) the function raises and deletes nothing: the file is as the editor left it.
\<close>

theorem approve_changelog_cleanup:
  assumes "popen env [''gvim'', ''--noplugin'', ''-fc'', ''e ++enc=cp1252 /tmp/vim-online-changelog'']
             (context_cwd env kw0) None False
             ((files s)(''/tmp/vim-online-changelog'' \<mapsto> changelog), world s) = (p, fs', w')"
  shows "((\<exists>out. p = Exited 0 out) \<longrightarrow>
            files (snd (approve_changelog env changelog s)) ''/tmp/vim-online-changelog'' = None)
       \<and> (\<forall>text. (\<exists>out. p = Exited 0 out) \<and> fs' ''/tmp/vim-online-changelog'' = Some text
                  \<and> list_all (\<lambda>l. \<not> isl (cp1252_to_utf8 l)) (splitlines (rstrip text)) \<longrightarrow>
            fst (approve_changelog env changelog s) = Inr (rstrip text))
       \<and> ((\<forall>out. p \<noteq> Exited 0 out) \<longrightarrow>
            isl (fst (approve_changelog env changelog s))
            \<and> files (snd (approve_changelog env changelog s)) ''/tmp/vim-online-changelog''
                = fs' ''/tmp/vim-online-changelog'')"
proof -
  let ?f = "''/tmp/vim-online-changelog''"
  let ?s1 = "s\<lparr>files := (files s)(?f \<mapsto> changelog),
               logged := logged s @ [(INFO, Fmt ''Waiting for approval of change log ..'' [])]\<rparr>"
  let ?s2 = "?s1\<lparr>files := fs', world := w',
               calls := calls s @ [Popen [''gvim'', ''--noplugin'', ''-fc'',
                 ''e ++enc=cp1252 /tmp/vim-online-changelog''] (context_cwd env kw0) None False]\<rparr>"
  have k: "kw_input kw0 = None" "kw_capture kw0 = False" "kw_check kw0 = True"
    by (simp_all add: kw0_def)
  show ?thesis
  proof (cases p)
    case (SpawnFailed m)
    then show ?thesis using assms k
      by (simp add: approve_changelog_def run_def write_file_def prog_simps Let_def)
  next
    case (Exited rc out)
    show ?thesis
    proof (cases "rc = 0")
      case False
      then show ?thesis using assms k Exited
        by (simp add: approve_changelog_def run_def write_file_def prog_simps Let_def)
    next
      case True
      show ?thesis
      proof (cases "fs' ?f")
        case None
        then show ?thesis using assms k Exited True
          by (simp add: approve_changelog_def run_def write_file_def read_file_def prog_simps Let_def)
      next
        case (Some body)
        let ?s3 = "?s2\<lparr>files := fs'(?f := None)\<rparr>"
        have eq: "approve_changelog env changelog s =
                (case log_lines (splitlines (rstrip body)) ?s3 of
                   (Inl e, s') \<Rightarrow> (Inl e, s')
                 | (Inr u, s') \<Rightarrow> (Inr (rstrip body), s'))"
          using assms k Exited True Some
          by (simp add: approve_changelog_def run_def write_file_def read_file_def unlink_def
                prog_simps Let_def split: prod.split sum.split)
        obtain r s' where l: "log_lines (splitlines (rstrip body)) ?s3 = (r, s')"
          by (cases "log_lines (splitlines (rstrip body)) ?s3")
        have f: "files s' = fs'(?f := None)"
          using log_lines_files[of "splitlines (rstrip body)" ?s3] l by simp
        have ok: "r = Inr ()" if "list_all (\<lambda>l. \<not> isl (cp1252_to_utf8 l)) (splitlines (rstrip body))"
          using log_lines_ok[OF that, of ?s3] l by simp
        show ?thesis using eq l f ok Exited True Some
          by (cases r) auto
      qed
    qed
  qed
qed

theorem approve_changelog_cleanup_witness:
  "fst (approve_changelog (sim_env ''/home/user/widget'') ''draft'' (state0 sim0))
     = Inr '' - Fix off-by-one''
   \<and> files (snd (approve_changelog (sim_env ''/home/user/widget'') ''draft'' (state0 sim0)))
       ''/tmp/vim-online-changelog'' = None"
proof -
  let ?E = "sim_env ''/home/user/widget''"
  have h: "popen ?E [''gvim'', ''--noplugin'', ''-fc'', ''e ++enc=cp1252 /tmp/vim-online-changelog'']
             (context_cwd ?E kw0) None False
             ((files (state0 sim0))(''/tmp/vim-online-changelog'' \<mapsto> ''draft''), world (state0 sim0))
           = (Exited 0 [], (Map.empty(''/tmp/vim-online-changelog'' \<mapsto> ''draft''))
                              (''/tmp/vim-online-changelog'' \<mapsto> '' - Fix off-by-one''), sim0)"
    by (simp add: sim_simps)
  have t: "rstrip '' - Fix off-by-one'' = '' - Fix off-by-one''" by (simp add: strip_simps)
  have d: "list_all (\<lambda>l. \<not> isl (cp1252_to_utf8 l)) (splitlines (rstrip '' - Fix off-by-one''))"
    unfolding t by (simp add: splitlines_def decode_cp1252_def Let_def)
  note T = approve_changelog_cleanup[OF h]
  have 1: "files (snd (approve_changelog ?E ''draft'' (state0 sim0))) ''/tmp/vim-online-changelog'' = None"
    by (rule T[THEN conjunct1, THEN mp]) simp
  have 2: "fst (approve_changelog ?E ''draft'' (state0 sim0)) = Inr (rstrip '' - Fix off-by-one'')"
    by (rule T[THEN conjunct2, THEN conjunct1, THEN spec, THEN mp]) (simp add: d)
  show ?thesis using 1 2 unfolding t by simp
qed

text \<open>
  Claim C7 as stated fails: when the editor exits with a nonzero return code,
  \<open>approve_changelog\<close> raises and the draft is still in the transient file.
\<close>

theorem approve_changelog_leaves_file:
  "isl (fst (approve_changelog (sim_env ''/home/user/widget'') ''draft''
               (state0 (sim0\<lparr>approval := None\<rparr>))))
   \<and> files (snd (approve_changelog (sim_env ''/home/user/widget'') ''draft''
                    (state0 (sim0\<lparr>approval := None\<rparr>))))
       ''/tmp/vim-online-changelog'' = Some ''draft''"
  by (simp add: approve_changelog_def run_def write_file_def prog_simps sim_simps Let_def)

subsection \<open>Generating the change log\<close>

lemma splitlines_from_line:
  "CHR 0x0A \<notin> set l \<Longrightarrow> CHR 0x0D \<notin> set l \<Longrightarrow>
   splitlines_from cur (l @ rest) = splitlines_from (cur @ l) rest"
  by (induction l arbitrary: cur) auto

lemma splitlines_join:
  "list_all (\<lambda>l. l \<noteq> [] \<and> CHR 0x0A \<notin> set l \<and> CHR 0x0D \<notin> set l) ls \<Longrightarrow>
   splitlines (join [CHR 0x0A] ls) = ls"
proof (induction "[CHR 0x0A]" ls rule: join.induct)
  case 1
  then show ?case by (simp add: splitlines_def)
next
  case (2 x)
  then have "splitlines_from [] (x @ []) = splitlines_from ([] @ x) []"
    by (intro splitlines_from_line) auto
  then show ?case using 2 by (simp add: splitlines_def)
next
  case (3 x y ys)
  then have "splitlines_from [] (x @ (CHR 0x0A # join [CHR 0x0A] (y # ys)))
              = splitlines_from ([] @ x) (CHR 0x0A # join [CHR 0x0A] (y # ys))"
    by (intro splitlines_from_line) auto
  then show ?case using 3 by (simp add: splitlines_def)
qed

lemma splitlines_from_chars:
  "l \<in> set (splitlines_from cur body) \<Longrightarrow> set l \<subseteq> set cur \<union> set body"
proof (induction cur body arbitrary: l rule: splitlines_from.induct)
  case (1 cur)
  then show ?case by (auto split: if_splits)
next
  case (2 cur c cs)
  show ?case
  proof (cases "c = CHR 0x0A")
    case True
    then show ?thesis using 2 by auto
  next
    case nl: False
    show ?thesis
    proof (cases "c = CHR 0x0D")
      case False
      then show ?thesis using 2 nl by auto
    next
      case True
      show ?thesis
      proof (cases cs)
        case Nil
        then show ?thesis using 2 nl True by auto
      next
        case (Cons d ds)
        then show ?thesis using 2 nl True by (cases "d = CHR 0x0A") auto
      qed
    qed
  qed
qed

lemma cp1252_decodable: "decodable l \<Longrightarrow> \<not> isl (cp1252_to_utf8 l)"
  by (induction l) (auto simp: decodable_def split: option.splits sum.splits)

lemma decodable_append [simp]: "decodable (a @ b) \<longleftrightarrow> decodable a \<and> decodable b"
  by (simp add: decodable_def)

lemma decodable_subset: "set a \<subseteq> set b \<Longrightarrow> decodable b \<Longrightarrow> decodable a"
  by (auto simp: decodable_def list_all_iff)

lemma decodable_join:
  "decodable sep \<Longrightarrow> list_all decodable xs \<Longrightarrow> decodable (join sep xs)"
  by (induction sep xs rule: join.induct) (auto simp: decodable_def)

lemma set_strip_of: "set (strip_of P s) \<subseteq> set s"
  unfolding strip_of_def rstrip_of_def lstrip_of_def
  by (metis set_dropWhileD set_rev subsetI)

lemma set_rstrip_of: "set (rstrip_of P s) \<subseteq> set s"
  unfolding rstrip_of_def by (metis set_dropWhileD set_rev subsetI)

lemma log_lines_decodable:
  "decodable body \<Longrightarrow> fst (log_lines (splitlines body) s) = Inr ()"
proof (rule log_lines_ok)
  assume d: "decodable body"
  have "decodable l" if "l \<in> set (splitlines body)" for l
    using splitlines_from_chars[of l "[]" body] that d
    by (auto simp: splitlines_def intro: decodable_subset)
  then show "list_all (\<lambda>l. \<not> isl (cp1252_to_utf8 l)) (splitlines body)"
    by (simp add: list_all_iff cp1252_decodable)
qed

lemma split_ws1_oneline:
  assumes "h \<noteq> []" "list_all (\<lambda>x. \<not> isspace x) h" "list_ex (\<lambda>x. \<not> isspace x) m"
  shows "split_ws1 (h @ '' '' @ m) = [h, dropWhile isspace m]"
proof -
  have nh: "\<not> isspace (hd h)" using assms(1,2) by (cases h) auto
  have a: "dropWhile isspace (h @ '' '' @ m) = h @ '' '' @ m"
    using assms(1) nh by (cases h) auto
  have all: "\<forall>x\<in>set h. \<not> isspace x" using assms(2) by (simp add: list_all_iff)
  have sp: "isspace CHR '' ''" by (simp add: isspace_def)
  have b: "takeWhile (\<lambda>c. \<not> isspace c) (h @ '' '' @ m) = h"
    using all sp by (simp add: takeWhile_append2)
  have c: "dropWhile (\<lambda>c. \<not> isspace c) (h @ '' '' @ m) = '' '' @ m"
    using all sp by (simp add: dropWhile_append2)
  have d: "dropWhile isspace m \<noteq> []"
    using assms(3) by (auto simp: list_ex_iff dropWhile_eq_Nil_conv)
  show ?thesis
    unfolding split_ws1_def Let_def a b c using assms(1) d sp by simp
qed

lemma strip_lstripped: "strip (dropWhile isspace m) = strip m"
  by (simp add: strip_def strip_of_def lstrip_of_def)

lemma changelog_items_onelines:
  "list_all oneline_commit cs \<Longrightarrow>
   changelog_items (''http://github.com/'' @ p) (map oneline cs) = Inr (map (entry p) cs)"
proof (induction cs)
  case Nil
  then show ?case by simp
next
  case (Cons c cs)
  obtain h m where c: "c = (h, m)" by (cases c)
  from Cons.prems c have w: "h \<noteq> []" "list_all (\<lambda>x. \<not> isspace x) h" "list_ex (\<lambda>x. \<not> isspace x) m"
    by (simp_all add: oneline_commit_def)
  have "split_ws1 (oneline c) = [h, dropWhile isspace m]"
    unfolding oneline_def c using split_ws1_oneline[OF w] by simp
  then show ?case using Cons c
    by (simp add: unpack2_def entry_def strip_lstripped)
qed

lemma bnd_Inr: "fst (m s) = Inr x \<Longrightarrow> bnd m f s = f x (snd (m s))"
  by (cases "m s") (simp add: bnd_def)

lemma case_prog_Inr:
  "fst r = Inr u \<Longrightarrow> (case r of (Inl e, s') \<Rightarrow> A e s' | (Inr x, s') \<Rightarrow> B x s') = B u (snd r)"
  by (cases r) auto

lemma bnd_Inl: "fst (m s) = Inl e \<Longrightarrow> bnd m f s = (Inl e, snd (m s))"
  by (cases "m s") (simp add: bnd_def)

lemma decodable_Cons: "decodable (c # s) \<longleftrightarrow> decode_cp1252 c \<noteq> None \<and> decodable s"
  by (simp add: decodable_def)

lemma rstrip_of_id: "s \<noteq> [] \<Longrightarrow> \<not> P (last s) \<Longrightarrow> rstrip_of P s = s"
  by (cases s rule: rev_cases) (simp_all add: rstrip_of_def)

lemma lstrip_of_id: "s \<noteq> [] \<Longrightarrow> \<not> P (hd s) \<Longrightarrow> lstrip_of P s = s"
  by (cases s) (simp_all add: lstrip_of_def)

lemma rstrip_of_snoc: "P c \<Longrightarrow> rstrip_of P (s @ [c]) = rstrip_of P s"
  by (simp add: rstrip_of_def)

lemma decodable_entry:
  assumes "decodable p" "oneline_commit c"
  shows "decodable (entry p c)"
proof -
  have "decodable (rstrip_chars '':'' (strip (snd c)))"
  proof (rule decodable_subset)
    show "set (rstrip_chars '':'' (strip (snd c))) \<subseteq> set (snd c)"
      unfolding rstrip_chars_def strip_def using set_rstrip_of set_strip_of by blast
    show "decodable (snd c)" using assms(2) by (simp add: oneline_commit_def)
  qed
  moreover have "decodable (fst c)" using assms(2) by (simp add: oneline_commit_def)
  moreover have "decodable [CHR '' '', CHR 0x95, CHR '' '']" "decodable '':''" "decodable [CHR 0x0A]"
    "decodable ''   http://github.com/''" "decodable ''/commit/''"
    by (simp_all add: decodable_def decode_cp1252_def cp1252_table_def Let_def)
  ultimately show ?thesis using assms(1) unfolding entry_def
    by (simp add: decodable_Cons decode_cp1252_def cp1252_table_def Let_def)
qed

lemma oneline_is_line:
  assumes "oneline_commit c"
  shows "oneline c \<noteq> [] \<and> CHR 0x0A \<notin> set (oneline c) \<and> CHR 0x0D \<notin> set (oneline c)"
proof -
  have "\<forall>x \<in> set (fst c). \<not> isspace x" "\<forall>x \<in> set (snd c). x \<noteq> CHR 0x0A \<and> x \<noteq> CHR 0x0D"
    "fst c \<noteq> []"
    using assms by (simp_all add: oneline_commit_def list_all_iff)
  moreover have "isspace (CHR 0x0A)" "isspace (CHR 0x0D)" by (simp_all add: isspace_def)
  ultimately show ?thesis unfolding oneline_def by auto
qed

lemma rstrip_colon:
  assumes "m \<noteq> []" "\<not> isspace (hd m)" "\<not> isspace (last m)" "last m \<noteq> CHR '':''"
  shows "rstrip_chars '':'' (strip (m @ '':'')) = m \<and> rstrip_chars '':'' (strip m) = m"
proof -
  have c: "\<not> isspace CHR '':''" by (simp add: isspace_def)
  have 1: "strip m = m"
    using assms(1,2,3) by (simp add: strip_def strip_of_def lstrip_of_id rstrip_of_id)
  have "hd (m @ '':'') = hd m" using assms(1) by simp
  then have 2: "strip (m @ '':'') = m @ '':''"
    using assms(2) c by (simp add: strip_def strip_of_def lstrip_of_id rstrip_of_id)
  have 3: "rstrip_chars '':'' m = m"
    using assms(1,4) by (simp add: rstrip_chars_def rstrip_of_id)
  have 4: "rstrip_chars '':'' (m @ '':'') = m"
    using 3 by (simp add: rstrip_chars_def rstrip_of_snoc)
  show ?thesis by (simp add: 1 2 3 4)
qed

text \<open>
  Claim C6. Let the trimmed output of \<open>git log --pretty=oneline --abbrev-commit\<close> over the
  range be the lines of the commits \<open>commits\<close>, newest first as git prints them, each an
  abbreviated hash, a space and a one-line summary. Then \<open>generate_changelog\<close> returns the
  entries of the commits in reverse order, oldest first, joined by a blank line; each entry
  holds the summary without surrounding whitespace and trailing colons. With no commit in
  the range the result is the empty change log. The last conjunct says what happens to a
  colon: a summary that ends with one colon loses it, and a summary without one is kept.
\<close>

theorem generate_changelog_oldest_first:
  assumes "map_of (plugins self) plugin_name = Some info"
      and "map_of info ''directory'' = Some directory"
      and "popen env [''git'', ''log'', ''--pretty=oneline'', ''--abbrev-commit'',
                      previous_version @ ''..'' @ current_version]
             (abspath env directory) None True (files s, world s) = (Exited 0 out, x)"
      and "strip out = join [CHR 0x0A] (map oneline commits)"
      and "list_all oneline_commit commits"
      and "decodable plugin_name"
  shows "fst (generate_changelog env self plugin_name previous_version current_version s)
           = Inr (join [CHR 0x0A, CHR 0x0A] (map (entry plugin_name) (rev commits)))
       \<and> (commits = [] \<longrightarrow>
            fst (generate_changelog env self plugin_name previous_version current_version s) = Inr [])
       \<and> (\<forall>m. m \<noteq> [] \<and> \<not> isspace (hd m) \<and> \<not> isspace (last m) \<and> last m \<noteq> CHR '':'' \<longrightarrow>
              rstrip_chars '':'' (strip (m @ '':'')) = m \<and> rstrip_chars '':'' (strip m) = m)"
proof -
  let ?cl = "join [CHR 0x0A, CHR 0x0A] (map (entry plugin_name) (rev commits))"
  have lines: "splitlines (strip out) = map oneline commits"
    unfolding assms(4)
    by (rule splitlines_join) (use assms(5) oneline_is_line in \<open>auto simp: list_all_iff\<close>)
  have items: "changelog_items (''http://github.com/'' @ plugin_name) (rev (map oneline commits))
                 = Inr (map (entry plugin_name) (rev commits))"
    using changelog_items_onelines[of "rev commits" plugin_name] assms(5) by (simp add: rev_map)
  have "decodable [CHR 0x0A, CHR 0x0A]"
    by (simp add: decodable_Cons decode_cp1252_def Let_def) (simp add: decodable_def)
  moreover have "list_all decodable (map (entry plugin_name) (rev commits))"
    using assms(5,6) decodable_entry by (simp add: list_all_iff)
  ultimately have "decodable ?cl"
    by (rule decodable_join)
  then have logs: "fst (log_lines (splitlines ?cl) t) = Inr ()" for t :: "'a state"
    by (rule log_lines_decodable)
  have main: "fst (generate_changelog env self plugin_name previous_version current_version s) = Inr ?cl"
    using assms(1,2,3) lines items
    by (cases x)
       (simp add: generate_changelog_def run_def prog_simps Let_def context_cwd_def kw0_def
          case_prog_Inr logs)
  show ?thesis
  proof (intro conjI allI impI)
    show "fst (generate_changelog env self plugin_name previous_version current_version s) = Inr ?cl"
      by (rule main)
    show "fst (generate_changelog env self plugin_name previous_version current_version s) = Inr []"
      if "commits = []" using main that by simp
    show "rstrip_chars '':'' (strip (m @ '':'')) = m" "rstrip_chars '':'' (strip m) = m"
      if "m \<noteq> [] \<and> \<not> isspace (hd m) \<and> \<not> isspace (last m) \<and> last m \<noteq> CHR '':''" for m
      using rstrip_colon that by blast+
  qed
qed

theorem generate_changelog_oldest_first_witness:
  "fst (generate_changelog (sim_env ''/home/user/widget'') (manager0 False) ''acme/widget''
          ''1.1.0'' ''1.2.0'' (state0 sim0))
     = Inr ([CHR '' '', CHR 0x95] @ '' Fix off-by-one:'' @ [CHR 0x0A]
            @ ''   http://github.com/acme/widget/commit/a1a1a1a'' @ [CHR 0x0A, CHR 0x0A]
            @ [CHR '' '', CHR 0x95] @ '' Add docs:'' @ [CHR 0x0A]
            @ ''   http://github.com/acme/widget/commit/b2b2b2b'' @ [CHR 0x0A, CHR 0x0A]
            @ [CHR '' '', CHR 0x95] @ '' Refactor:'' @ [CHR 0x0A]
            @ ''   http://github.com/acme/widget/commit/c3c3c3c'')
   \<and> fst (generate_changelog (sim_env ''/home/user/widget'') (manager0 False) ''acme/widget''
          ''1.2.0'' ''1.2.0'' (state0 (sim0\<lparr>history := [(''1.2.0..1.2.0'', [])]\<rparr>))) = Inr []"
proof -
  let ?E = "sim_env ''/home/user/widget''"
  let ?cs = "[(''c3c3c3c'', ''Refactor''), (''b2b2b2b'', ''Add docs:''), (''a1a1a1a'', ''Fix off-by-one'')]"
  let ?out = "''c3c3c3c Refactor'' @ [CHR 0x0A] @ ''b2b2b2b Add docs:'' @ [CHR 0x0A]
                @ ''a1a1a1a Fix off-by-one'' @ [CHR 0x0A]"
  let ?w = "sim0\<lparr>history := [(''1.2.0..1.2.0'', [])]\<rparr>"
  have i: "map_of (plugins (manager0 False)) ''acme/widget'' = Some widget"
    "map_of widget ''directory'' = Some ''/home/user/widget''"
    by (simp_all add: manager0_def widget_def)
  have p1: "popen ?E [''git'', ''log'', ''--pretty=oneline'', ''--abbrev-commit'', ''1.1.0'' @ ''..'' @ ''1.2.0'']
              (abspath ?E ''/home/user/widget'') None True (files (state0 sim0), world (state0 sim0))
            = (Exited 0 ?out, Map.empty, sim0)"
    by (simp add: sim_simps)
  have p2: "popen ?E [''git'', ''log'', ''--pretty=oneline'', ''--abbrev-commit'', ''1.2.0'' @ ''..'' @ ''1.2.0'']
              (abspath ?E ''/home/user/widget'') None True (files (state0 ?w), world (state0 ?w))
            = (Exited 0 [], Map.empty, ?w)"
    by (simp add: sim_simps)
  have o1: "strip ?out = join [CHR 0x0A] (map oneline ?cs)"
    by (simp add: strip_simps oneline_def)
  have o2: "strip [] = join [CHR 0x0A] (map oneline [])"
    by (simp add: strip_simps)
  have c1: "list_all oneline_commit ?cs"
    by (simp add: oneline_commit_def decodable_def decode_cp1252_def isspace_def Let_def)
  have c2: "list_all oneline_commit []" by simp
  have d: "decodable ''acme/widget''"
    by (simp add: decodable_def decode_cp1252_def Let_def)
  note T1 = generate_changelog_oldest_first[OF i p1 o1 c1 d]
  note T2 = generate_changelog_oldest_first[OF i p2 o2 c2 d]
  have e: "join [CHR 0x0A, CHR 0x0A] (map (entry ''acme/widget'') (rev ?cs))
           = [CHR '' '', CHR 0x95] @ '' Fix off-by-one:'' @ [CHR 0x0A]
            @ ''   http://github.com/acme/widget/commit/a1a1a1a'' @ [CHR 0x0A, CHR 0x0A]
            @ [CHR '' '', CHR 0x95] @ '' Add docs:'' @ [CHR 0x0A]
            @ ''   http://github.com/acme/widget/commit/b2b2b2b'' @ [CHR 0x0A, CHR 0x0A]
            @ [CHR '' '', CHR 0x95] @ '' Refactor:'' @ [CHR 0x0A]
            @ ''   http://github.com/acme/widget/commit/c3c3c3c''"
    by (simp add: entry_def strip_simps)
  show ?thesis
    using T1[THEN conjunct1] T2[THEN conjunct2, THEN conjunct1] unfolding e by simp
qed

subsection \<open>The last release on Vim Online\<close>

lemma scan_rows_result:
  "list_all (\<lambda>row. search_version row \<noteq> None) (filter (\<lambda>row. contains row ''download_script.php'') rows) \<Longrightarrow>
   fst (scan_rows rows acc s)
     = Inr (acc @ map version_number
              (List.map_filter search_version (filter (\<lambda>row. contains row ''download_script.php'') rows)))"
proof (induction rows arbitrary: acc s)
  case Nil
  then show ?case by (simp add: prog_simps)
next
  case (Cons row rows)
  show ?case
  proof (cases "contains row ''download_script.php''")
    case False
    then show ?thesis using Cons by simp
  next
    case True
    with Cons.prems obtain v where v: "search_version row = Some v" by auto
    from Cons.prems True have
      "list_all (\<lambda>row. search_version row \<noteq> None) (filter (\<lambda>row. contains row ''download_script.php'') rows)"
      by simp
    note IH = Cons.IH[OF this]
    show ?thesis using True v
      by (simp add: prog_simps Let_def IH version_number_def)
  qed
qed

lemma scan_rows_state:
  "files (snd (scan_rows rows acc s)) = files s \<and> world (snd (scan_rows rows acc s)) = world s
   \<and> calls (snd (scan_rows rows acc s)) = calls s"
proof (induction rows arbitrary: acc s)
  case Nil
  then show ?case by (simp add: prog_simps)
next
  case (Cons row rows)
  show ?case
  proof (cases "contains row ''download_script.php''")
    case False
    then show ?thesis using Cons by simp
  next
    case True
    then show ?thesis
      by (cases "search_version row") (simp_all add: prog_simps Let_def Cons)
  qed
qed

lemma sorted_le_last:
  fixes xs :: "int list list"
  shows "sorted xs \<Longrightarrow> x \<in> set xs \<Longrightarrow> x \<le> last xs"
proof (induction xs)
  case Nil
  then show ?case by simp
next
  case (Cons a xs)
  show ?case
  proof (cases "xs = []")
    case True
    then show ?thesis using Cons.prems by simp
  next
    case False
    then have l: "last xs \<in> set xs" by simp
    show ?thesis
    proof (cases "x = a")
      case True
      then show ?thesis using Cons.prems(1) False l by auto
    next
      case ne: False
      then show ?thesis using Cons False by auto
    qed
  qed
qed

lemma last_sort_max:
  fixes vs :: "int list list"
  assumes "vs \<noteq> []"
  shows "last (sort vs) \<in> set vs \<and> (\<forall>v \<in> set vs. v \<le> last (sort vs))"
proof -
  have ne: "sort vs \<noteq> []" using assms by (metis length_0_conv length_sort)
  then have "last (sort vs) \<in> set (sort vs)" by (rule last_in_set)
  moreover have "v \<le> last (sort vs)" if "v \<in> set vs" for v
    using sorted_le_last[of "sort vs" v] that by simp
  ultimately show ?thesis by simp
qed

text \<open>
  Claim C3. When the registry answers with status 200 and every row of its page that
  links to a download holds a version string, \<open>find_version_on_vim_online\<close> returns the
  dotted rendering of the greatest scraped version, where versions are compared as
  sequences of integers: component by component, a proper prefix being smaller (the second
  conjunct spells the order out). So 2.9 is smaller than 2.10, although the string
  \<open>2.10\<close> is smaller than the string \<open>2.9\<close>.
\<close>

theorem find_version_on_vim_online_latest:
  assumes "map_of (plugins self) plugin_name = Some info"
      and "map_of info ''script-id'' = Some script_id"
      and "urlopen env (''http://www.vim.org/scripts/script.php?script_id='' @ script_id) (world s)
             = Some (Response 200 body)"
      and "list_all (\<lambda>row. search_version row \<noteq> None) (download_rows body)"
      and "version_strings body \<noteq> []"
  shows "(\<exists>latest. latest \<in> set (map version_number (version_strings body))
            \<and> (\<forall>v \<in> set (map version_number (version_strings body)). v \<le> latest)
            \<and> fst (find_version_on_vim_online env self plugin_name s)
                 = Inr (join ''.'' (map str_int latest)))
       \<and> (\<forall>a b x y. ((a # x :: int list) \<le> b # y \<longleftrightarrow> a < b \<or> (a = b \<and> x \<le> y))
                    \<and> ([] :: int list) \<le> x \<and> \<not> (a # x \<le> ([] :: int list)))
       \<and> version_number ''2.9'' < version_number ''2.10''
       \<and> map (of_char :: char \<Rightarrow> nat) ''2.10'' < map of_char ''2.9''"
proof -
  let ?vs = "map version_number (version_strings body)"
  let ?url = "''http://www.vim.org/scripts/script.php?script_id='' @ script_id"
  have ne: "?vs \<noteq> []" using assms(5) by simp
  have scan: "fst (scan_rows (findall_tr body) [] t) = Inr ?vs" for t :: "'a state"
    using scan_rows_result[of "findall_tr body" "[]" t] assms(4)
    by (simp add: download_rows_def version_strings_def)
  have res: "fst (find_version_on_vim_online env self plugin_name s)
               = Inr (join ''.'' (map str_int (last (sort ?vs))))"
    using assms(1,2,3) ne
    by (simp add: find_version_on_vim_online_def prog_simps Let_def case_prog_Inr scan)
  have ord: "version_number ''2.9'' < version_number ''2.10''"
    by (simp add: version_number_def int_of_digits_def)
  have str: "map (of_char :: char \<Rightarrow> nat) ''2.10'' < map of_char ''2.9''"
    by simp
  show ?thesis
    using last_sort_max[OF ne] res ord str by (intro conjI exI[of _ "last (sort ?vs)"]) auto
qed

lemma page29_rows:
  "findall_tr page29 =
     [''<tr><td><a href=download_script.php?src_id=1>w.zip</a></td><td><b>2.9</b></td></tr>'',
      ''<tr><td><a href=download_script.php?src_id=2>w.zip</a></td><td><b>2.10</b></td></tr>'']"
  by (simp add: page29_def findall_tr_def match_tr_def startswith_def)

lemma page29_versions:
  "list_all (\<lambda>row. search_version row \<noteq> None) (download_rows page29)
   \<and> version_strings page29 = [''2.9'', ''2.10'']"
  by (simp add: download_rows_def version_strings_def page29_rows startswith_def match_version_def
        isdigit_def Let_def)

theorem find_version_on_vim_online_latest_witness:
  "version_strings page29 = [''2.9'', ''2.10'']
   \<and> fst (find_version_on_vim_online (sim_env ''/home/user/widget'') (manager0 False) ''acme/widget''
            (state0 (sim0\<lparr>pages := [(''http://www.vim.org/scripts/script.php?script_id=42'',
                                        Response 200 page29)]\<rparr>))) = Inr ''2.10''"
proof -
  let ?E = "sim_env ''/home/user/widget''"
  let ?w = "sim0\<lparr>pages := [(''http://www.vim.org/scripts/script.php?script_id=42'', Response 200 page29)]\<rparr>"
  have i: "map_of (plugins (manager0 False)) ''acme/widget'' = Some widget"
    "map_of widget ''script-id'' = Some ''42''"
    by (simp_all add: manager0_def widget_def)
  have u: "urlopen ?E (''http://www.vim.org/scripts/script.php?script_id='' @ ''42'') (world (state0 ?w))
             = Some (Response 200 page29)"
    by (simp add: sim_env_def state0_def)
  have r: "list_all (\<lambda>row. search_version row \<noteq> None) (download_rows page29)"
    and v: "version_strings page29 = [''2.9'', ''2.10'']"
    using page29_versions by simp_all
  have n: "version_strings page29 \<noteq> []" using v by simp
  have vn: "map version_number [''2.9'', ''2.10''] = [[2, 9], [2, 10]]"
    by (simp add: version_number_def int_of_digits_def)
  from find_version_on_vim_online_latest[OF i u r n, THEN conjunct1]
  obtain latest where l: "latest \<in> set [[2, 9], [2, 10 :: int]]"
      "\<forall>v \<in> set [[2, 9], [2, 10 :: int]]. v \<le> latest"
      "fst (find_version_on_vim_online ?E (manager0 False) ''acme/widget'' (state0 ?w))
         = Inr (join ''.'' (map str_int latest))"
    unfolding v vn by blast
  from l(1,2) have "latest = [2, 10]" by auto
  moreover have "join ''.'' (map str_int [2, 10]) = ''2.10''"
    by code_simp
  ultimately show ?thesis using l(3) v by simp
qed

subsection \<open>The calls and the log of a run\<close>

lemma emitsI:
  "(\<And>s. \<exists>new added. calls (snd (m s)) = calls s @ new \<and> list_all P new
            \<and> logged (snd (m s)) = logged s @ added) \<Longrightarrow> emits P m"
  by (simp add: emits_def)

lemma emitsD:
  "emits P m \<Longrightarrow> \<exists>new added. calls (snd (m s)) = calls s @ new \<and> list_all P new
            \<and> logged (snd (m s)) = logged s @ added"
  by (simp add: emits_def)

lemma emits_mono: "emits P m \<Longrightarrow> (\<And>c. P c \<Longrightarrow> Q c) \<Longrightarrow> emits Q m"
  unfolding emits_def by (metis (mono_tags, lifting) list_all_iff)

lemma emits_ret [intro!]: "emits P (ret x)"
  by (simp add: emits_def ret_def)

lemma emits_raise [intro!]: "emits P (raise e)"
  by (simp add: emits_def raise_def)

lemma emits_logger [intro!]: "emits P (logger lvl fmt args)"
  by (simp add: emits_def logger_def)

lemma emits_logger_exception [intro!]: "emits P (logger_exception e)"
  by (simp add: emits_def logger_exception_def)

lemma emits_bnd [intro!]:
  assumes "emits P m" "\<And>x. emits P (f x)"
  shows "emits P (bnd m f)"
proof (rule emitsI)
  fix s
  obtain r s1 where m: "m s = (r, s1)" by (cases "m s")
  from emitsD[OF assms(1), of s] m obtain n1 a1 where
    1: "calls s1 = calls s @ n1" "list_all P n1" "logged s1 = logged s @ a1" by auto
  show "\<exists>new added. calls (snd (bnd m f s)) = calls s @ new \<and> list_all P new
            \<and> logged (snd (bnd m f s)) = logged s @ added"
  proof (cases r)
    case (Inl e)
    then show ?thesis using m 1 by (simp add: bnd_def)
  next
    case (Inr x)
    from emitsD[OF assms(2), of x s1] obtain n2 a2 where
      2: "calls (snd (f x s1)) = calls s1 @ n2" "list_all P n2" "logged (snd (f x s1)) = logged s1 @ a2"
      by auto
    show ?thesis using m Inr 1 2 by (simp add: bnd_def)
  qed
qed

lemma emits_if [intro!]: "emits P a \<Longrightarrow> emits P b \<Longrightarrow> emits P (if c then a else b)"
  by simp

lemma emits_case_option [intro!]:
  "emits P a \<Longrightarrow> (\<And>x. emits P (b x)) \<Longrightarrow> emits P (case v of None \<Rightarrow> a | Some x \<Rightarrow> b x)"
  by (cases v) simp_all

lemma emits_case_sum [intro!]:
  "(\<And>x. emits P (a x)) \<Longrightarrow> (\<And>x. emits P (b x)) \<Longrightarrow> emits P (case v of Inl x \<Rightarrow> a x | Inr x \<Rightarrow> b x)"
  by (cases v) simp_all

lemma emits_case_prod [intro!]:
  "(\<And>x y. emits P (f x y)) \<Longrightarrow> emits P (case v of (x, y) \<Rightarrow> f x y)"
  by (cases v) simp

lemma emits_run [intro!]:
  "P (Popen args (context_cwd env kw) (kw_input kw) (kw_capture kw)) \<Longrightarrow> emits P (run env args kw)"
  by (rule emitsI) (simp add: run_def Let_def split: prod.splits proc.splits)

lemma emits_write_file [intro!]: "emits P (write_file f d)"
  by (simp add: emits_def write_file_def)

lemma emits_read_file [intro!]: "emits P (read_file f)"
  by (simp add: emits_def read_file_def split: option.splits)

lemma emits_unlink [intro!]: "emits P (unlink f)"
  by (simp add: emits_def unlink_def split: option.splits)

lemma emits_captured [intro!]: "emits P (captured out)"
  unfolding captured_def by auto

lemma emits_item [intro!]: "emits P (item info key)"
  unfolding item_def by auto

lemma emits_plugin_info [intro!]: "emits P (plugin_info self p)"
  unfolding plugin_info_def by auto

lemma emits_plugin_item [intro!]: "emits P (plugin_item self p key)"
  unfolding plugin_item_def by auto

lemma emits_of_result [intro!]: "emits P (of_result r)"
  unfolding of_result_def by auto

lemma emits_log_lines [intro!]: "emits P (log_lines ls)"
  by (induction ls) (auto split: sum.splits)

lemma emits_scan_rows [intro!]: "emits P (scan_rows rows acc)"
  by (induction rows arbitrary: acc) (auto simp: Let_def)

lemma emits_netrc_hosts [intro!]: "P (NetrcRead path) \<Longrightarrow> emits P (netrc_hosts env path host)"
  by (rule emitsI) (simp add: netrc_hosts_def Let_def split: option.splits)

lemma emits_session_open [intro!]: "P (MechOpen url) \<Longrightarrow> emits P (session_open env url)"
  by (rule emitsI) (simp add: session_open_def Let_def split: prod.splits option.splits)

lemma emits_session_submit [intro!]:
  "P (MechSubmit form ff up) \<Longrightarrow> emits P (session_submit env form ff up)"
  by (rule emitsI) (simp add: session_submit_def Let_def split: prod.splits option.splits)

lemma emits_publish_changes_to_github: "emits (\<lambda>c. kind_of c = Push) (publish_changes_to_github env self p)"
  unfolding publish_changes_to_github_def by auto

lemma emits_current_branch: "emits (\<lambda>c. kind_of c = SymbolicRef) (current_branch env self p)"
  unfolding current_branch_def by (auto simp: Let_def)

lemma emits_find_releases: "emits (\<lambda>c. kind_of c = TagList) (find_releases env self p)"
  unfolding find_releases_def by auto

lemma emits_get_committed_contents:
  "emits (\<lambda>c. kind_of c = Show) (get_committed_contents env self p f r)"
  unfolding get_committed_contents_def by (auto simp: Let_def)

lemma emits_find_version_in_repository:
  "emits (\<lambda>c. kind_of c = Show) (find_version_in_repository env self p b)"
  unfolding find_version_in_repository_def
  by (auto simp: Let_def intro: emits_get_committed_contents)

lemma emits_generate_changelog:
  "emits (\<lambda>c. kind_of c = Log) (generate_changelog env self p a b)"
  unfolding generate_changelog_def by (auto simp: Let_def)

lemma emits_approve_changelog:
  "emits (\<lambda>c. kind_of c = Editor) (approve_changelog env cl)"
  unfolding approve_changelog_def by (auto simp: Let_def)

lemma emits_find_version_on_vim_online:
  "emits (\<lambda>c. kind_of c = RegistryQuery) (find_version_on_vim_online env self p)"
proof -
  have inner: "emits (\<lambda>c. kind_of c = RegistryQuery)
     (\<lambda>s. (case urlopen env url (world s) of
              None \<Rightarrow> (Inl (IOError url), s\<lparr>calls := calls s @ [UrlOpen url]\<rparr>)
            | Some (Response code body) \<Rightarrow> rest code body (s\<lparr>calls := calls s @ [UrlOpen url]\<rparr>)))"
    if "\<And>code body. emits (\<lambda>c. kind_of c = RegistryQuery) (rest code body)" for url rest
  proof (rule emitsI)
    fix s :: "'a state"
    show "\<exists>new added. calls (snd (case urlopen env url (world s) of
              None \<Rightarrow> (Inl (IOError url), s\<lparr>calls := calls s @ [UrlOpen url]\<rparr>)
            | Some (Response code body) \<Rightarrow> rest code body (s\<lparr>calls := calls s @ [UrlOpen url]\<rparr>)))
              = calls s @ new \<and> list_all (\<lambda>c. kind_of c = RegistryQuery) new
            \<and> logged (snd (case urlopen env url (world s) of
              None \<Rightarrow> (Inl (IOError url), s\<lparr>calls := calls s @ [UrlOpen url]\<rparr>)
            | Some (Response code body) \<Rightarrow> rest code body (s\<lparr>calls := calls s @ [UrlOpen url]\<rparr>)))
              = logged s @ added"
    proof (cases "urlopen env url (world s)")
      case None
      then show ?thesis by simp
    next
      case (Some resp)
      obtain code body where r: "resp = Response code body" by (cases resp)
      from emitsD[OF that, of code body "s\<lparr>calls := calls s @ [UrlOpen url]\<rparr>"]
      show ?thesis using Some r by auto
    qed
  qed
  show ?thesis
    unfolding find_version_on_vim_online_def Let_def
    by (intro emits_bnd emits_plugin_item emits_logger inner) (auto simp: Let_def)
qed

lemma emits_calls_mem:
  "emits P m \<Longrightarrow> c \<in> set (calls s) \<Longrightarrow> c \<in> set (calls (snd (m s)))"
  using emitsD[of P m s] by auto

lemma emits_logged_mem:
  "emits P m \<Longrightarrow> l \<in> set (logged s) \<Longrightarrow> l \<in> set (logged (snd (m s)))"
  using emitsD[of P m s] by auto

lemma emits_True: "emits P m \<Longrightarrow> emits (\<lambda>c. True) m"
  by (erule emits_mono) simp

lemma bnd_ret: "bnd (ret x) f = f x"
  by (rule ext) (simp add: bnd_def ret_def)

lemma bnd_raise: "bnd (raise e) f = raise e"
  by (rule ext) (simp add: bnd_def raise_def)

lemma bnd_logger:
  "bnd (logger lvl fmt args) f s = f () (s\<lparr>logged := logged s @ [(lvl, Fmt fmt args)]\<rparr>)"
  by (simp add: bnd_def logger_def)

lemma plugin_item_Some:
  "map_of (plugins self) p = Some info \<Longrightarrow> map_of info key = Some v \<Longrightarrow>
   plugin_item self p key = ret v"
  by (rule ext) (simp add: prog_simps)

lemma plugin_info_Some:
  "map_of (plugins self) p = Some info \<Longrightarrow> plugin_info self p = ret info"
  by (rule ext) (simp add: prog_simps)

lemmas exec_simps = bnd_ret bnd_raise bnd_logger

lemma snd_bnd:
  "snd (bnd m f s) = (case fst (m s) of Inl e \<Rightarrow> snd (m s) | Inr x \<Rightarrow> snd (f x (snd (m s))))"
  by (cases "m s") (auto simp: bnd_def split: sum.splits)

lemma bnd_calls_mem:
  assumes "\<And>x. emits P (f x)" "c \<in> set (calls (snd (m s)))"
  shows "c \<in> set (calls (snd (bnd m f s)))"
  unfolding snd_bnd using emits_calls_mem[OF assms(1)] assms(2) by (cases "fst (m s)") auto

lemma bnd_logged_mem:
  assumes "\<And>x. emits P (f x)" "l \<in> set (logged (snd (m s)))"
  shows "l \<in> set (logged (snd (bnd m f s)))"
  unfolding snd_bnd using emits_logged_mem[OF assms(1)] assms(2) by (cases "fst (m s)") auto

lemma find_version_on_vim_online_queries:
  assumes "map_of (plugins self) p = Some info" "map_of info ''script-id'' = Some sid"
  shows "UrlOpen (''http://www.vim.org/scripts/script.php?script_id='' @ sid)
           \<in> set (calls (snd (find_version_on_vim_online env self p s)))
       \<and> (DEBUG, Fmt ''Finding last released version on %s ..''
                    [S (''http://www.vim.org/scripts/script.php?script_id='' @ sid)])
           \<in> set (logged (snd (find_version_on_vim_online env self p s)))"
proof -
  define url where "url = ''http://www.vim.org/scripts/script.php?script_id='' @ sid"
  let ?s1 = "s\<lparr>logged := logged s @ [(DEBUG, Fmt ''Finding last released version on %s ..'' [S url])],
               calls := calls s @ [UrlOpen url]\<rparr>"
  have "UrlOpen url \<in> set (calls (snd (find_version_on_vim_online env self p s)))
       \<and> (DEBUG, Fmt ''Finding last released version on %s ..'' [S url])
           \<in> set (logged (snd (find_version_on_vim_online env self p s)))"
  proof (cases "urlopen env url (world s)")
    case None
    then show ?thesis
      by (simp add: find_version_on_vim_online_def plugin_item_Some[OF assms] exec_simps Let_def
            url_def[symmetric] del: append.simps cong: if_cong)
  next
    case (Some resp)
    obtain code body where r: "resp = Response code body" by (cases resp)
    define rest :: "(string, 'a) prog" where "rest =
       (if code \<noteq> 200 then
              raise (Exception (''URL '' @ repr_str url @ '' resulted in HTTP ''
                                 @ str_int code @ '' response!''))
            else
              bnd (scan_rows (findall_tr body) []) (\<lambda>released_versions.
                if released_versions = [] then
                  raise (Exception (''Failed to find any previous releases on ''
                                     @ repr_str url @ ''!''))
                else
                  bnd (logger DEBUG ''Found %i previous releases, sorting to find the latest ..''
                         [I (int (length released_versions))]) (\<lambda>_.
                    let sorted_versions = sort released_versions;
                        previous_release = join ''.'' (map str_int (last sorted_versions))
                    in bnd (logger INFO ''Found last release on Vim Online: %s'' [S previous_release]) (\<lambda>_.
                       ret previous_release))))"
    have e: "emits (\<lambda>c. True) rest" unfolding rest_def by (auto simp: Let_def)
    have eq: "find_version_on_vim_online env self p s = rest ?s1"
      using Some r unfolding rest_def
      by (simp add: find_version_on_vim_online_def plugin_item_Some[OF assms] exec_simps Let_def
            url_def[symmetric] del: append.simps cong: if_cong)
    show ?thesis unfolding eq
      using emits_calls_mem[OF e, of "UrlOpen url" ?s1]
            emits_logged_mem[OF e, of "(DEBUG, Fmt ''Finding last released version on %s ..'' [S url])" ?s1]
      by simp
  qed
  then show ?thesis unfolding url_def .
qed

lemma run_calls_mem:
  "Popen args (context_cwd env kw) (kw_input kw) (kw_capture kw) \<in> set (calls (snd (run env args kw s)))"
  by (simp add: run_def Let_def split: prod.splits proc.splits)

lemma run_logged: "logged (snd (run env args kw s)) = logged s"
  by (simp add: run_def Let_def split: prod.splits proc.splits)

lemma context_cwd_Some [simp]: "context_cwd env (kw\<lparr>kw_cwd := Some d\<rparr>) = abspath env d"
  by (simp add: context_cwd_def)

lemma context_cwd_capture [simp]: "context_cwd env (kw\<lparr>kw_capture := b\<rparr>) = context_cwd env kw"
  by (simp add: context_cwd_def)

lemma kw0_simps [simp]:
  "kw_input kw0 = None" "kw_capture kw0 = False" "kw_check kw0 = True" "kw_cwd kw0 = None"
  by (simp_all add: kw0_def)

lemma find_version_in_repository_reads:
  assumes "map_of (plugins self) p = Some info"
      and "map_of info ''autoload-script'' = Some a"
      and "map_of info ''directory'' = Some d"
  shows "Popen [''git'', ''show'', b @ '':'' @ relpath env (abspath env a) (abspath env d)]
           (abspath env d) None True
           \<in> set (calls (snd (find_version_in_repository env self p b s)))
       \<and> (DEBUG, Fmt ''Finding local committed version by scanning %s for %r ..''
                    [S a, S (''let g:'' @ replace_char CHR ''/'' CHR ''#'' (sub_autoload a) @ ''#version'')])
           \<in> set (logged (snd (find_version_in_repository env self p b s)))"
proof -
  let ?args = "[''git'', ''show'', b @ '':'' @ relpath env (abspath env a) (abspath env d)]"
  let ?kw = "kw0\<lparr>kw_cwd := Some d, kw_capture := True\<rparr>"
  let ?l = "(DEBUG, Fmt ''Finding local committed version by scanning %s for %r ..''
                    [S a, S (''let g:'' @ replace_char CHR ''/'' CHR ''#'' (sub_autoload a) @ ''#version'')])"
  let ?s1 = "s\<lparr>logged := logged s @ [?l]\<rparr>"
  have "\<exists>rest. find_version_in_repository env self p b s = bnd (run env ?args ?kw) rest ?s1
          \<and> (\<forall>x. emits (\<lambda>c. True) (rest x))"
    apply (simp only: find_version_in_repository_def get_committed_contents_def
             plugin_item_Some[OF assms(1,2)] plugin_item_Some[OF assms(1,3)] bnd_ret Let_def bnd_logger)
    apply (rule exI, rule conjI, rule refl)
    apply (auto simp: Let_def)
    done
  then obtain rest where eq: "find_version_in_repository env self p b s = bnd (run env ?args ?kw) rest ?s1"
    and e: "\<And>x. emits (\<lambda>c. True) (rest x)" by blast
  have 1: "Popen ?args (abspath env d) None True \<in> set (calls (snd (run env ?args ?kw ?s1)))"
    using run_calls_mem[of ?args env ?kw ?s1] by simp
  have 2: "?l \<in> set (logged (snd (run env ?args ?kw ?s1)))"
    by (simp add: run_logged)
  show ?thesis unfolding eq
    using bnd_calls_mem[of "\<lambda>c. True" rest _ "run env ?args ?kw" ?s1, OF e 1]
          bnd_logged_mem[of "\<lambda>c. True" rest _ "run env ?args ?kw" ?s1, OF e 2]
    by simp
qed

lemma generate_changelog_queries:
  assumes "map_of (plugins self) p = Some info"
      and "map_of info ''directory'' = Some d"
  shows "Popen [''git'', ''log'', ''--pretty=oneline'', ''--abbrev-commit'', previous @ ''..'' @ current]
           (abspath env d) None True
           \<in> set (calls (snd (generate_changelog env self p previous current s)))
       \<and> (DEBUG, Fmt ''Generating change log based on git commits & tags ..'' [])
           \<in> set (logged (snd (generate_changelog env self p previous current s)))"
proof -
  let ?args = "[''git'', ''log'', ''--pretty=oneline'', ''--abbrev-commit'', previous @ ''..'' @ current]"
  let ?kw = "kw0\<lparr>kw_cwd := Some d, kw_capture := True\<rparr>"
  let ?l = "(DEBUG, Fmt ''Generating change log based on git commits & tags ..'' [])"
  let ?s1 = "s\<lparr>logged := logged s @ [?l]\<rparr>"
  have "\<exists>rest. generate_changelog env self p previous current s = bnd (run env ?args ?kw) rest ?s1
          \<and> (\<forall>x. emits (\<lambda>c. True) (rest x))"
    apply (simp only: generate_changelog_def plugin_item_Some[OF assms(1,2)] bnd_ret Let_def bnd_logger)
    apply (rule exI, rule conjI, rule refl)
    apply (auto simp: Let_def split: sum.splits)
    done
  then obtain rest where eq: "generate_changelog env self p previous current s = bnd (run env ?args ?kw) rest ?s1"
    and e: "\<And>x. emits (\<lambda>c. True) (rest x)" by blast
  have 1: "Popen ?args (abspath env d) None True \<in> set (calls (snd (run env ?args ?kw ?s1)))"
    using run_calls_mem[of ?args env ?kw ?s1] by simp
  have 2: "?l \<in> set (logged (snd (run env ?args ?kw ?s1)))"
    by (simp add: run_logged)
  show ?thesis unfolding eq
    using bnd_calls_mem[of "\<lambda>c. True" rest _ "run env ?args ?kw" ?s1, OF e 1]
          bnd_logged_mem[of "\<lambda>c. True" rest _ "run env ?args ?kw" ?s1, OF e 2]
    by simp
qed

subsection \<open>Publishing a release\<close>

lemma bnd_eq_Inr: "m s = (Inr x, s') \<Longrightarrow> bnd m f s = f x s'"
  by (simp add: bnd_def)

lemma bnd_eq_Inl: "m s = (Inl e, s') \<Longrightarrow> bnd m f s = (Inl e, s')"
  by (simp add: bnd_def)

lemma prog_collapse: "fst (m s) = r \<Longrightarrow> m s = (r, snd (m s))"
  by (cases "m s") simp

lemma release_steps_push:
  "release_steps env self p =
     bnd (push_step env self p) (\<lambda>_.
     bnd (plugin_info self p) (\<lambda>info.
       if map_of info ''script-id'' = None then
         logger INFO ''The plug-in %s does not have a script-id, so can't be published to vim.org.''
           [S p]
       else
         bnd (find_version_on_vim_online env self p) (\<lambda>previous_release.
         bnd (find_version_in_repository env self p ''master'') (\<lambda>committed_version.
           if committed_version = previous_release then
             logger INFO ''Everything up to date!'' []
           else
             bnd (generate_changelog env self p previous_release committed_version)
               (\<lambda>suggested_changelog.
             bnd (approve_changelog env suggested_changelog) (\<lambda>approved_changelog.
               if strip approved_changelog = [] then
                 logger ERROR ''Empty change log, canceling release ..'' []
               else if dry_run self then
                 logger WARNING ''Skipping Vim Online release because we're doing a dry run.'' []
               else
                 bnd (publish_release_to_vim_online env self p committed_version
                        approved_changelog) (\<lambda>_.
                 bnd (show_release_on_vim_online env self p) (\<lambda>_.
                 bnd (run_post_release_hook env self p) (\<lambda>_.
                   logger INFO ''Done!'' [])))))))))"
  unfolding release_steps_def push_step_def ..

lemma publish_release_calls:
  "calls (snd (publish_release env self p s)) = calls (snd (release_steps env self p s))"
proof (cases "release_steps env self p s")
  case (Pair r s1)
  show ?thesis
  proof (cases r)
    case (Inr u)
    then show ?thesis using Pair by (simp add: publish_release_def)
  next
    case (Inl e)
    then show ?thesis using Pair
      by (cases e) (simp_all add: publish_release_def bnd_def logger_def logger_exception_def raise_def)
  qed
qed

lemma publish_release_logged:
  "\<exists>added. logged (snd (publish_release env self p s)) = logged (snd (release_steps env self p s)) @ added"
proof (cases "release_steps env self p s")
  case (Pair r s1)
  show ?thesis
  proof (cases r)
    case (Inr u)
    then show ?thesis using Pair by (simp add: publish_release_def)
  next
    case (Inl e)
    then show ?thesis using Pair
      by (cases e) (simp_all add: publish_release_def bnd_def logger_def logger_exception_def raise_def)
  qed
qed

lemma emits_publish_release:
  assumes "emits P (release_steps env self p)"
  shows "emits P (publish_release env self p)"
proof (rule emitsI)
  fix s
  from emitsD[OF assms, of s] obtain new added where
    "calls (snd (release_steps env self p s)) = calls s @ new" "list_all P new"
    "logged (snd (release_steps env self p s)) = logged s @ added" by blast
  moreover obtain more where
    "logged (snd (publish_release env self p s)) = logged (snd (release_steps env self p s)) @ more"
    using publish_release_logged by blast
  ultimately show "\<exists>new added. calls (snd (publish_release env self p s)) = calls s @ new \<and> list_all P new
            \<and> logged (snd (publish_release env self p s)) = logged s @ added"
    by (simp add: publish_release_calls)
qed

lemma emits_push_step_dry: "dry_run self \<Longrightarrow> emits P (push_step env self p)"
  by (simp add: push_step_def emits_logger)

lemma emits_release_steps_dry:
  assumes "dry_run self"
  shows "emits (\<lambda>c. kind_of c \<in> {RegistryQuery, Show, Log, Editor}) (release_steps env self p)"
proof -
  let ?K = "\<lambda>c. kind_of c \<in> {RegistryQuery, Show, Log, Editor}"
  have a: "emits ?K (find_version_on_vim_online env self p)"
    by (rule emits_mono[OF emits_find_version_on_vim_online]) simp
  have b: "emits ?K (find_version_in_repository env self p ''master'')"
    by (rule emits_mono[OF emits_find_version_in_repository]) simp
  have c: "emits ?K (generate_changelog env self p x y)" for x y
    by (rule emits_mono[OF emits_generate_changelog]) simp
  have d: "emits ?K (approve_changelog env x)" for x
    by (rule emits_mono[OF emits_approve_changelog]) simp
  show ?thesis
    unfolding release_steps_push
    apply (simp only: assms if_True)
    apply (intro emits_bnd emits_if emits_logger emits_plugin_info a b c d emits_push_step_dry assms)
    done
qed

lemma push_step_dry:
  "dry_run self \<Longrightarrow> push_step env self p s =
     (Inr (), s\<lparr>logged := logged s @
        [(WARNING, Fmt ''Skipping GitHub push because we're doing a dry run.'' [])]\<rparr>)"
  by (simp add: push_step_def logger_def)

lemma publish_release_calls_mem:
  "c \<in> set (calls (snd (release_steps env self p s))) \<Longrightarrow>
   c \<in> set (calls (snd (publish_release env self p s)))"
  by (simp add: publish_release_calls)

lemma publish_release_logged_mem:
  "l \<in> set (logged (snd (release_steps env self p s))) \<Longrightarrow>
   l \<in> set (logged (snd (publish_release env self p s)))"
  using publish_release_logged[of env self p s] by auto

lemma release_steps_stages:
  "release_steps env self p =
     bnd (push_step env self p) (\<lambda>_.
     bnd (plugin_info self p) (\<lambda>info.
       if map_of info ''script-id'' = None then
         logger INFO ''The plug-in %s does not have a script-id, so can't be published to vim.org.''
           [S p]
       else bnd (find_version_on_vim_online env self p) (after_registry env self p)))"
  unfolding release_steps_push after_registry_def after_versions_def after_approval_def ..

lemma release_steps_registry:
  assumes "map_of (plugins self) p = Some info" "map_of info ''script-id'' = Some sid"
      and "push_step env self p s = (Inr (), s0)"
  shows "release_steps env self p s
           = bnd (find_version_on_vim_online env self p) (after_registry env self p) s0"
proof -
  have "release_steps env self p s =
     bnd (plugin_info self p) (\<lambda>info.
       if map_of info ''script-id'' = None then
         logger INFO ''The plug-in %s does not have a script-id, so can't be published to vim.org.''
           [S p]
       else bnd (find_version_on_vim_online env self p) (after_registry env self p)) s0"
    unfolding release_steps_stages using assms(3) by (rule bnd_eq_Inr)
  then show ?thesis using assms(2) by (simp add: plugin_info_Some[OF assms(1)] bnd_ret)
qed

lemma emits_after_approval_any:
  "emits (\<lambda>c. True) (after_approval env self p c a)"
proof -
  have 1: "emits (\<lambda>c. True) (publish_release_to_vim_online env self p c a)"
    unfolding publish_release_to_vim_online_def generate_release_archive_def
    by (auto simp: Let_def)
  have 2: "emits (\<lambda>c. True) (show_release_on_vim_online env self p)"
    unfolding show_release_on_vim_online_def
    by (intro emits_bnd emits_plugin_item emits_of_result) (simp add: emits_def)
  have 3: "emits (\<lambda>c. True) (run_post_release_hook env self p)"
    unfolding run_post_release_hook_def
  proof (intro emits_bnd emits_logger, rule emitsI)
    fix x and s :: "'a state"
    let ?r = "run env [''which'', ''after-vim-plugin-release''] (kw0\<lparr>kw_capture := True\<rparr>) s"
    obtain r s1 where r: "?r = (r, s1)" by (cases ?r)
    have g: "\<exists>new. calls s1 = calls s @ new" "logged s1 = logged s"
      using r emitsD[of "\<lambda>c. True" "run env [''which'', ''after-vim-plugin-release''] (kw0\<lparr>kw_capture := True\<rparr>)" s]
        run_logged[of env "[''which'', ''after-vim-plugin-release'']" "kw0\<lparr>kw_capture := True\<rparr>" s]
      by (auto intro: emits_run)
    have e: "emits (\<lambda>c. True) (bnd (captured out) (\<lambda>pathname.
           bnd (logger INFO ''Running post-release hook %s ..'' [S pathname]) (\<lambda>_.
           bnd (run env [pathname] kw0) (\<lambda>_. ret ()))))" for out
      by auto
    show "\<exists>new added. calls (snd (case ?r of
         (Inl (ExternalCommandFailed msg cmd), s1) \<Rightarrow>
           logger DEBUG ''No post-release hook installed!'' [] s1
       | (Inl e, s1) \<Rightarrow> (Inl e, s1)
       | (Inr out, s1) \<Rightarrow>
           bnd (captured out) (\<lambda>pathname.
           bnd (logger INFO ''Running post-release hook %s ..'' [S pathname]) (\<lambda>_.
           bnd (run env [pathname] kw0) (\<lambda>_. ret ()))) s1)) = calls s @ new \<and> list_all (\<lambda>c. True) new
         \<and> logged (snd (case ?r of
         (Inl (ExternalCommandFailed msg cmd), s1) \<Rightarrow>
           logger DEBUG ''No post-release hook installed!'' [] s1
       | (Inl e, s1) \<Rightarrow> (Inl e, s1)
       | (Inr out, s1) \<Rightarrow>
           bnd (captured out) (\<lambda>pathname.
           bnd (logger INFO ''Running post-release hook %s ..'' [S pathname]) (\<lambda>_.
           bnd (run env [pathname] kw0) (\<lambda>_. ret ()))) s1)) = logged s @ added"
    proof (cases r)
      case (Inr out)
      from emitsD[OF e, of out s1] show ?thesis using r Inr g by (auto simp: list_all_iff)
    next
      case (Inl err)
      then show ?thesis using r g by (cases err) (auto simp: logger_def list_all_iff)
    qed
  qed
  show ?thesis unfolding after_approval_def
    by (intro emits_if emits_bnd emits_logger 1 2 3)
qed

lemma emits_after_versions_any: "emits (\<lambda>c. True) (after_versions env self p a b)"
  unfolding after_versions_def
  by (intro emits_if emits_bnd emits_logger emits_after_approval_any
        emits_True[OF emits_generate_changelog] emits_True[OF emits_approve_changelog])

lemma emits_after_registry_any: "emits (\<lambda>c. True) (after_registry env self p a)"
  unfolding after_registry_def
  by (intro emits_bnd emits_after_versions_any emits_True[OF emits_find_version_in_repository])

text \<open>
  Claim C2, as amended. In a dry run \<open>publish_release\<close> issues no push, no upload and no
  tag creation: every external call is the registry query, the read of the committed
  version, the commit log query or the editor. For a plug-in that has a script-id the
  registry query is issued and logged; when it returns a version, the committed version
  is read and this is logged; and when that returns a version that differs, the commit
  log is queried and the drafting is logged.
\<close>

theorem dry_run_purity:
  assumes "dry_run self"
  shows "(\<exists>new. calls (snd (publish_release env self p s)) = calls s @ new
              \<and> list_all (\<lambda>c. kind_of c \<in> {RegistryQuery, Show, Log, Editor}) new)
       \<and> (\<forall>info sid. map_of (plugins self) p = Some info \<and> map_of info ''script-id'' = Some sid \<longrightarrow>
             UrlOpen (''http://www.vim.org/scripts/script.php?script_id='' @ sid)
               \<in> set (calls (snd (publish_release env self p s)))
           \<and> (DEBUG, Fmt ''Finding last released version on %s ..''
                        [S (''http://www.vim.org/scripts/script.php?script_id='' @ sid)])
               \<in> set (logged (snd (publish_release env self p s)))
           \<and> (\<forall>a d previous.
                 map_of info ''autoload-script'' = Some a \<and> map_of info ''directory'' = Some d
                 \<and> fst (find_version_on_vim_online env self p (snd (push_step env self p s)))
                     = Inr previous \<longrightarrow>
                 Popen [''git'', ''show'', ''master'' @ '':'' @ relpath env (abspath env a) (abspath env d)]
                   (abspath env d) None True
                   \<in> set (calls (snd (publish_release env self p s)))
               \<and> (DEBUG, Fmt ''Finding local committed version by scanning %s for %r ..''
                     [S a, S (''let g:'' @ replace_char CHR ''/'' CHR ''#'' (sub_autoload a) @ ''#version'')])
                   \<in> set (logged (snd (publish_release env self p s)))
               \<and> (\<forall>committed.
                     fst (find_version_in_repository env self p ''master''
                            (snd (find_version_on_vim_online env self p (snd (push_step env self p s)))))
                       = Inr committed \<and> committed \<noteq> previous \<longrightarrow>
                     Popen [''git'', ''log'', ''--pretty=oneline'', ''--abbrev-commit'',
                            previous @ ''..'' @ committed] (abspath env d) None True
                       \<in> set (calls (snd (publish_release env self p s)))
                   \<and> (DEBUG, Fmt ''Generating change log based on git commits & tags ..'' [])
                       \<in> set (logged (snd (publish_release env self p s))))))"
proof (intro conjI allI impI; (elim conjE)?)
  show "\<exists>new. calls (snd (publish_release env self p s)) = calls s @ new
              \<and> list_all (\<lambda>c. kind_of c \<in> {RegistryQuery, Show, Log, Editor}) new"
    using emitsD[OF emits_publish_release[OF emits_release_steps_dry[OF assms]], of env p s] by blast
next
  fix info sid
  assume i: "map_of (plugins self) p = Some info" "map_of info ''script-id'' = Some sid"
  define s0 where "s0 = snd (push_step env self p s)"
  have ps: "push_step env self p s = (Inr (), s0)"
    unfolding s0_def by (simp add: push_step_dry[OF assms])
  have rs: "release_steps env self p s
              = bnd (find_version_on_vim_online env self p) (after_registry env self p) s0"
    by (rule release_steps_registry[OF i ps])
  note q = find_version_on_vim_online_queries[OF i, of env s0]
  show "UrlOpen (''http://www.vim.org/scripts/script.php?script_id='' @ sid)
               \<in> set (calls (snd (publish_release env self p s)))"
    by (rule publish_release_calls_mem, unfold rs,
        rule bnd_calls_mem[where P="\<lambda>c. True" and f="after_registry env self p"],
        rule emits_after_registry_any, rule q[THEN conjunct1])
  show "(DEBUG, Fmt ''Finding last released version on %s ..''
                        [S (''http://www.vim.org/scripts/script.php?script_id='' @ sid)])
               \<in> set (logged (snd (publish_release env self p s)))"
    by (rule publish_release_logged_mem, unfold rs,
        rule bnd_logged_mem[where P="\<lambda>c. True" and f="after_registry env self p"],
        rule emits_after_registry_any, rule q[THEN conjunct2])
  fix a d previous
  assume j: "map_of info ''autoload-script'' = Some a" "map_of info ''directory'' = Some d"
    and f: "fst (find_version_on_vim_online env self p (snd (push_step env self p s))) = Inr previous"
  define s1 where "s1 = snd (find_version_on_vim_online env self p s0)"
  have rs1: "release_steps env self p s
               = bnd (find_version_in_repository env self p ''master'')
                   (after_versions env self p previous) s1"
    unfolding rs s1_def using bnd_Inr[of "find_version_on_vim_online env self p" s0 previous
                                        "after_registry env self p"] f
    by (simp add: s0_def after_registry_def)
  note q1 = find_version_in_repository_reads[OF i(1) j, of "''master''" env s1]
  show "Popen [''git'', ''show'', ''master'' @ '':'' @ relpath env (abspath env a) (abspath env d)]
                   (abspath env d) None True
                   \<in> set (calls (snd (publish_release env self p s)))"
    by (rule publish_release_calls_mem, unfold rs1,
        rule bnd_calls_mem[where P="\<lambda>c. True" and f="after_versions env self p previous"],
        rule emits_after_versions_any, rule q1[THEN conjunct1])
  show "(DEBUG, Fmt ''Finding local committed version by scanning %s for %r ..''
                     [S a, S (''let g:'' @ replace_char CHR ''/'' CHR ''#'' (sub_autoload a) @ ''#version'')])
                   \<in> set (logged (snd (publish_release env self p s)))"
    by (rule publish_release_logged_mem, unfold rs1,
        rule bnd_logged_mem[where P="\<lambda>c. True" and f="after_versions env self p previous"],
        rule emits_after_versions_any, rule q1[THEN conjunct2])
  fix committed
  assume g: "fst (find_version_in_repository env self p ''master''
                            (snd (find_version_on_vim_online env self p (snd (push_step env self p s)))))
                       = Inr committed"
    and ne: "committed \<noteq> previous"
  define s2 where "s2 = snd (find_version_in_repository env self p ''master'' s1)"
  have rs2: "release_steps env self p s
               = bnd (generate_changelog env self p previous committed)
                   (\<lambda>suggested_changelog. bnd (approve_changelog env suggested_changelog)
                      (after_approval env self p committed)) s2"
    unfolding rs1 s2_def
    using bnd_Inr[of "find_version_in_repository env self p ''master''" s1 committed
                     "after_versions env self p previous"] g ne
    by (simp add: s1_def s0_def after_versions_def)
  have e: "emits (\<lambda>c. True) (bnd (approve_changelog env x) (after_approval env self p committed))" for x
    by (intro emits_bnd emits_after_approval_any emits_True[OF emits_approve_changelog])
  note q2 = generate_changelog_queries[OF i(1) j(2), of previous committed env s2]
  show "Popen [''git'', ''log'', ''--pretty=oneline'', ''--abbrev-commit'',
                            previous @ ''..'' @ committed] (abspath env d) None True
                       \<in> set (calls (snd (publish_release env self p s)))"
    by (rule publish_release_calls_mem, unfold rs2, rule bnd_calls_mem[where P="\<lambda>c. True" and f="\<lambda>suggested_changelog. bnd (approve_changelog env suggested_changelog) (after_approval env self p committed)"],
        rule e, rule q2[THEN conjunct1])
  show "(DEBUG, Fmt ''Generating change log based on git commits & tags ..'' [])
                       \<in> set (logged (snd (publish_release env self p s)))"
    by (rule publish_release_logged_mem, unfold rs2, rule bnd_logged_mem[where P="\<lambda>c. True" and f="\<lambda>suggested_changelog. bnd (approve_changelog env suggested_changelog) (after_approval env self p committed)"],
        rule e, rule q2[THEN conjunct2])
qed

lemmas run_simps = publish_release_def release_steps_def publish_changes_to_github_def
  find_version_on_vim_online_def find_version_in_repository_def get_committed_contents_def
  generate_changelog_def approve_changelog_def publish_release_to_vim_online_def
  generate_release_archive_def show_release_on_vim_online_def run_post_release_hook_def
  netrc_hosts_def session_open_def session_submit_def tag_release_def current_branch_def
  find_releases_def run_def write_file_def read_file_def unlink_def push_step_def
  logger_exception_def

text \<open>
  Claim C2 as stated fails: a dry run for a plug-in without a script-id returns at once,
  having resolved no version and drafted no change log.
\<close>

theorem dry_run_without_script_id:
  "fst (publish_release (sim_env ''/home/user/widget'')
          \<lparr>plugins = [(''acme/widget'', [(''name'', ''acme/widget''), (''directory'', ''/home/user/widget'')])],
           dry_run = True\<rparr> ''acme/widget'' (state0 sim0)) = Inr ()
   \<and> calls (snd (publish_release (sim_env ''/home/user/widget'')
          \<lparr>plugins = [(''acme/widget'', [(''name'', ''acme/widget''), (''directory'', ''/home/user/widget'')])],
           dry_run = True\<rparr> ''acme/widget'' (state0 sim0))) = []"
  by (simp add: run_simps prog_simps state0_def)

lemma sim0_registry:
  "fst (find_version_on_vim_online (sim_env ''/home/user/widget'') (manager0 True) ''acme/widget''
          (snd (push_step (sim_env ''/home/user/widget'') (manager0 True) ''acme/widget'' (state0 sim0))))
     = Inr ''1.1.0''"
  by code_simp

lemma sim0_committed:
  "fst (find_version_in_repository (sim_env ''/home/user/widget'') (manager0 True) ''acme/widget'' ''master''
          (snd (find_version_on_vim_online (sim_env ''/home/user/widget'') (manager0 True) ''acme/widget''
          (snd (push_step (sim_env ''/home/user/widget'') (manager0 True) ''acme/widget'' (state0 sim0))))))
     = Inr ''1.2.0''"
  by code_simp

theorem dry_run_purity_witness:
  "dry_run (manager0 True)
   \<and> list_all (\<lambda>c. kind_of c \<in> {RegistryQuery, Show, Log, Editor})
        (calls (snd (publish_release (sim_env ''/home/user/widget'') (manager0 True) ''acme/widget''
                       (state0 sim0))))
   \<and> UrlOpen ''http://www.vim.org/scripts/script.php?script_id=42''
        \<in> set (calls (snd (publish_release (sim_env ''/home/user/widget'') (manager0 True) ''acme/widget''
                              (state0 sim0))))
   \<and> Popen [''git'', ''show'', ''master:autoload/widget.vim''] ''/home/user/widget'' None True
        \<in> set (calls (snd (publish_release (sim_env ''/home/user/widget'') (manager0 True) ''acme/widget''
                              (state0 sim0))))
   \<and> Popen [''git'', ''log'', ''--pretty=oneline'', ''--abbrev-commit'', ''1.1.0..1.2.0'']
          ''/home/user/widget'' None True
        \<in> set (calls (snd (publish_release (sim_env ''/home/user/widget'') (manager0 True) ''acme/widget''
                              (state0 sim0))))
   \<and> (DEBUG, Fmt ''Generating change log based on git commits & tags ..'' [])
        \<in> set (logged (snd (publish_release (sim_env ''/home/user/widget'') (manager0 True) ''acme/widget''
                               (state0 sim0))))"
proof -
  let ?E = "sim_env ''/home/user/widget''"
  let ?r = "publish_release ?E (manager0 True) ''acme/widget'' (state0 sim0)"
  have d: "dry_run (manager0 True)" by (simp add: manager0_def)
  note T = dry_run_purity[OF d, of ?E "''acme/widget''" "state0 sim0"]
  have i: "map_of (plugins (manager0 True)) ''acme/widget'' = Some widget \<and> map_of widget ''script-id'' = Some ''42''"
    by (simp add: manager0_def widget_def)
  have j: "map_of widget ''autoload-script'' = Some ''autoload/widget.vim'' \<and> map_of widget ''directory'' = Some ''/home/user/widget''
           \<and> fst (find_version_on_vim_online ?E (manager0 True) ''acme/widget''
                  (snd (push_step ?E (manager0 True) ''acme/widget'' (state0 sim0)))) = Inr ''1.1.0''"
    using sim0_registry by (simp add: widget_def)
  have k: "fst (find_version_in_repository ?E (manager0 True) ''acme/widget'' ''master''
                  (snd (find_version_on_vim_online ?E (manager0 True) ''acme/widget''
                     (snd (push_step ?E (manager0 True) ''acme/widget'' (state0 sim0))))))
             = Inr ''1.2.0'' \<and> ''1.2.0'' \<noteq> ''1.1.0''"
    using sim0_committed by simp
  from T[THEN conjunct1] have 1: "list_all (\<lambda>c. kind_of c \<in> {RegistryQuery, Show, Log, Editor}) (calls (snd ?r))"
    by (auto simp: state0_def)
  note T2 = T[THEN conjunct2, THEN spec, THEN spec, THEN mp, OF i]
  note T3 = T2[THEN conjunct2, THEN conjunct2, THEN spec, THEN spec, THEN spec, THEN mp, OF j]
  note T4 = T3[THEN conjunct2, THEN conjunct2, THEN spec, THEN mp, OF k]
  have p: "abspath ?E ''/home/user/widget'' = ''/home/user/widget''"
    "relpath ?E (abspath ?E ''autoload/widget.vim'') ''/home/user/widget'' = ''autoload/widget.vim''"
    by (simp_all add: sim_simps)
  show ?thesis
    using d 1 T2[THEN conjunct1] T3[THEN conjunct1] T4[THEN conjunct1] T4[THEN conjunct2]
    by (simp add: p)
qed

lemma emits_push_step: "emits (\<lambda>c. kind_of c = Push) (push_step env self p)"
  unfolding push_step_def by (intro emits_if emits_logger emits_publish_changes_to_github)

lemma emits_step:
  assumes "emits P m" "m s = (r, s')" "\<And>c. P c \<Longrightarrow> Q c"
  shows "\<exists>new. calls s' = calls s @ new \<and> list_all Q new"
  using emitsD[OF emits_mono[OF assms(1), of Q], of s] assms(2,3) by auto

lemma publish_release_Inr:
  "release_steps env self p s = (Inr u, s') \<Longrightarrow> publish_release env self p s = (Inr u, s')"
  by (simp add: publish_release_def)

text \<open>
  Claim C5. When the plug-in has a script-id, the push step returned, and the version
  committed on master equals the version last published on the registry,
  \<open>publish_release\<close> logs \<open>Everything up to date!\<close> at level INFO and returns normally
  (exit status 0). The run has pushed (unless it is a dry run), queried the registry and
  read the committed version, and nothing else: no commit log query, no editor, no
  archive, no upload, no tag creation.
\<close>

theorem up_to_date_is_noop:
  assumes "map_of (plugins self) p = Some info"
      and "map_of info ''script-id'' = Some sid"
      and "push_step env self p s = (Inr (), s0)"
      and "find_version_on_vim_online env self p s0 = (Inr version, s1)"
      and "find_version_in_repository env self p ''master'' s1 = (Inr version, s2)"
  shows "publish_release env self p s
           = (Inr (), s2\<lparr>logged := logged s2 @ [(INFO, Fmt ''Everything up to date!'' [])]\<rparr>)
       \<and> exit_code (fst (publish_release env self p s)) = 0
       \<and> (\<exists>new. calls (snd (publish_release env self p s)) = calls s @ new
                \<and> list_all (\<lambda>c. kind_of c \<in> {Push, RegistryQuery, Show}) new)"
proof -
  let ?K = "\<lambda>c. kind_of c \<in> {Push, RegistryQuery, Show}"
  have "release_steps env self p s = after_registry env self p version s1"
    unfolding release_steps_registry[OF assms(1,2,3)] using assms(4) by (rule bnd_eq_Inr)
  also have "\<dots> = after_versions env self p version version s2"
    unfolding after_registry_def using assms(5) by (rule bnd_eq_Inr)
  also have "\<dots> = (Inr (), s2\<lparr>logged := logged s2 @ [(INFO, Fmt ''Everything up to date!'' [])]\<rparr>)"
    by (simp add: after_versions_def logger_def)
  finally have r: "publish_release env self p s
           = (Inr (), s2\<lparr>logged := logged s2 @ [(INFO, Fmt ''Everything up to date!'' [])]\<rparr>)"
    by (rule publish_release_Inr)
  obtain n0 where 0: "calls s0 = calls s @ n0" "list_all ?K n0"
    using emits_step[OF emits_push_step assms(3), of ?K] by auto
  obtain n1 where 1: "calls s1 = calls s0 @ n1" "list_all ?K n1"
    using emits_step[OF emits_find_version_on_vim_online assms(4), of ?K] by auto
  obtain n2 where 2: "calls s2 = calls s1 @ n2" "list_all ?K n2"
    using emits_step[OF emits_find_version_in_repository assms(5), of ?K] by auto
  have "calls (snd (publish_release env self p s)) = calls s @ (n0 @ n1 @ n2) \<and> list_all ?K (n0 @ n1 @ n2)"
    using r 0 1 2 by simp
  then show ?thesis using r by (auto simp: exit_code_def)
qed

text \<open>
  Claim C4, as amended. When the text approved in the editor is empty after stripping,
  whatever the draft was, \<open>publish_release\<close> logs \<open>Empty change log, canceling release ..\<close>
  at level ERROR and returns normally (exit status 0); the run has issued no archive, no
  upload and no tag creation.
\<close>

theorem empty_approval_cancels:
  assumes "map_of (plugins self) p = Some info"
      and "map_of info ''script-id'' = Some sid"
      and "push_step env self p s = (Inr (), s0)"
      and "find_version_on_vim_online env self p s0 = (Inr previous, s1)"
      and "find_version_in_repository env self p ''master'' s1 = (Inr current, s2)"
      and "current \<noteq> previous"
      and "generate_changelog env self p previous current s2 = (Inr suggested, s3)"
      and "approve_changelog env suggested s3 = (Inr approved, s4)"
      and "strip approved = []"
  shows "publish_release env self p s
           = (Inr (), s4\<lparr>logged := logged s4 @ [(ERROR, Fmt ''Empty change log, canceling release ..'' [])]\<rparr>)
       \<and> exit_code (fst (publish_release env self p s)) = 0
       \<and> (\<exists>new. calls (snd (publish_release env self p s)) = calls s @ new
                \<and> list_all (\<lambda>c. kind_of c \<in> {Push, RegistryQuery, Show, Log, Editor}) new)"
proof -
  let ?K = "\<lambda>c. kind_of c \<in> {Push, RegistryQuery, Show, Log, Editor}"
  have "release_steps env self p s = after_registry env self p previous s1"
    unfolding release_steps_registry[OF assms(1,2,3)] using assms(4) by (rule bnd_eq_Inr)
  also have "\<dots> = after_versions env self p previous current s2"
    unfolding after_registry_def using assms(5) by (rule bnd_eq_Inr)
  also have "\<dots> = bnd (approve_changelog env suggested) (after_approval env self p current) s3"
    using assms(6) bnd_eq_Inr[of "generate_changelog env self p previous current" s2 suggested s3, OF assms(7)]
    by (simp add: after_versions_def)
  also have "\<dots> = after_approval env self p current approved s4"
    using assms(8) by (rule bnd_eq_Inr)
  also have "\<dots> = (Inr (), s4\<lparr>logged := logged s4 @ [(ERROR, Fmt ''Empty change log, canceling release ..'' [])]\<rparr>)"
    using assms(9) by (simp add: after_approval_def logger_def)
  finally have r: "publish_release env self p s
           = (Inr (), s4\<lparr>logged := logged s4 @ [(ERROR, Fmt ''Empty change log, canceling release ..'' [])]\<rparr>)"
    by (rule publish_release_Inr)
  obtain n0 where 0: "calls s0 = calls s @ n0" "list_all ?K n0"
    using emits_step[OF emits_push_step assms(3), of ?K] by auto
  obtain n1 where 1: "calls s1 = calls s0 @ n1" "list_all ?K n1"
    using emits_step[OF emits_find_version_on_vim_online assms(4), of ?K] by auto
  obtain n2 where 2: "calls s2 = calls s1 @ n2" "list_all ?K n2"
    using emits_step[OF emits_find_version_in_repository assms(5), of ?K] by auto
  obtain n3 where 3: "calls s3 = calls s2 @ n3" "list_all ?K n3"
    using emits_step[OF emits_generate_changelog assms(7), of ?K] by auto
  obtain n4 where 4: "calls s4 = calls s3 @ n4" "list_all ?K n4"
    using emits_step[OF emits_approve_changelog assms(8), of ?K] by auto
  have "calls (snd (publish_release env self p s)) = calls s @ (n0 @ n1 @ n2 @ n3 @ n4)
        \<and> list_all ?K (n0 @ n1 @ n2 @ n3 @ n4)"
    using r 0 1 2 3 4 by simp
  then show ?thesis using r by (auto simp: exit_code_def)
qed

lemma prog_collapse_Inr: "\<not> isl (fst (m s)) \<Longrightarrow> m s = (Inr (projr (fst (m s))), snd (m s))"
  by (cases "m s") (auto simp: isl_def)

end
